theory Spec2Isabelle
  imports Complex_Main "HOL-Library.AList"
begin

section \<open>Financial projections: the data model of app.py\<close>

text \<open>
  The program reads a fixed-layout table of monthly figures, derives growth assumptions
  from it (\<open>main_flow\<close>) and compounds them forward (\<open>build_new_df\<close>).

  The numbers of the program are the number objects that pandas and Python hand it at run
  time: Python \<open>int\<close> and \<open>float\<close>, \<open>numpy.float64\<close>. Their arithmetic is binary floating
  point, and which operation raises depends on the type of the operands. None of this is
  fixed here. The type \<open>'n\<close> of numbers and its operations are a parameter \<open>ar\<close> of every
  definition that computes, and every theorem holds for every \<open>ar\<close>: it speaks of the sum, the
  quotient, the power and the rounding that the operations of the run return, whatever they
  return. Where a theorem needs a law of the arithmetic, the law is a hypothesis.
\<close>

datatype py_error = IndexError | ZeroDivisionError | OverflowError | KeyError | ValueError

text \<open>The operations the program applies to numbers.
  \<^item> \<open>num_of_int i\<close>: the int \<open>i\<close> as an operand of a number (\<open>1 + rate\<close>, the \<open>0\<close> that \<open>sum\<close>
    starts from, \<open>len(values)\<close> as a divisor);
  \<^item> \<open>num_percent i\<close>: \<open>i / 100\<close> for a slider value \<open>i\<close>; the divisor is the literal 100, so
    the division cannot raise;
  \<^item> \<open>num_add\<close>, \<open>num_sub\<close>, \<open>num_mul\<close>: \<open>+\<close>, \<open>-\<close>, \<open>*\<close>;
  \<^item> \<open>num_div a b\<close>: \<open>a / b\<close>, \<open>None\<close> where it raises \<open>ZeroDivisionError\<close>;
  \<^item> \<open>num_pow a n\<close>: \<open>a ** n\<close>, \<open>None\<close> where it raises \<open>OverflowError\<close>;
  \<^item> \<open>num_round a\<close>: \<open>round(a, 2)\<close>;
  \<^item> \<open>num_eq0 a\<close>: \<open>a == 0.0\<close>, the test behind \<open>0.0 in values\<close>.\<close>

record 'n arith =
  num_of_int :: "int \<Rightarrow> 'n"
  num_percent :: "int \<Rightarrow> 'n"
  num_add :: "'n \<Rightarrow> 'n \<Rightarrow> 'n"
  num_sub :: "'n \<Rightarrow> 'n \<Rightarrow> 'n"
  num_mul :: "'n \<Rightarrow> 'n \<Rightarrow> 'n"
  num_div :: "'n \<Rightarrow> 'n \<Rightarrow> 'n option"
  num_pow :: "'n \<Rightarrow> nat \<Rightarrow> 'n option"
  num_round :: "'n \<Rightarrow> 'n"
  num_eq0 :: "'n \<Rightarrow> bool"

text \<open>A Python \<open>dict\<close> keeps insertion order: an association list with distinct keys,
  read by \<^const>\<open>map_of\<close> and written by \<^const>\<open>AList.update\<close> (the value is replaced in place
  when the key exists, the pair is appended otherwise).\<close>

type_synonym 'v pydict = "(string \<times> 'v) list"

text \<open>A \<open>pandas.DataFrame\<close> of numbers, addressed by position as \<open>df.iloc\<close> does.\<close>

record 'n dataframe =
  nrows :: nat
  ncols :: nat
  cell :: "nat \<Rightarrow> nat \<Rightarrow> 'n"

text \<open>The result of \<open>main_flow\<close>: the dictionary with the three keys \<open>static_keys\<close>,
  \<open>avg_growth_rates\<close> and \<open>initial_values\<close>.\<close>

record 'n assumptions =
  static_keys :: "string list"
  avg_growth_rates :: "'n pydict"
  initial_values :: "'n pydict"

text \<open>The frame \<open>build_new_df\<close> returns: the column labels (the inserted \<open>Category\<close>
  column first) and the rows in order, each with its index label, which is also its
  \<open>Category\<close> cell, and its numeric cells.\<close>

record 'n projection =
  columns :: "string list"
  rows :: "'n list pydict"

definition PRODUCT_SALES :: string where "PRODUCT_SALES = ''Product Sales''"
definition SERVICE_SALES :: string where "SERVICE_SALES = ''Service Sales''"
definition TOTAL_SALES :: string where "TOTAL_SALES = ''Total Sales''"
definition COGS :: string where "COGS = ''Cost of Goods Sold''"
definition MARKETING :: string where "MARKETING = ''Marketing''"
definition STAFF_SALARIES :: string where "STAFF_SALARIES = ''Staff Salaries''"
definition TOTAL_OPEX :: string where "TOTAL_OPEX = ''Total Operating Expenses''"
definition NET_INCOME :: string where "NET_INCOME = ''Net Income''"

definition category_names :: "string list" where
  "category_names = [PRODUCT_SALES, SERVICE_SALES, COGS, MARKETING, STAFF_SALARIES]"

definition row_order :: "string list" where
  "row_order = [PRODUCT_SALES, SERVICE_SALES, TOTAL_SALES, COGS, MARKETING,
     STAFF_SALARIES, TOTAL_OPEX, NET_INCOME]"

section \<open>Library operations the program calls\<close>

text \<open>Evaluating a list of fallible computations from left to right: the first exception
  ends the evaluation, as it ends a comprehension or a \<open>for\<close> loop.\<close>

fun sequence :: "('e + 'a) list \<Rightarrow> 'e + 'a list" where
  "sequence [] = Inr []"
| "sequence (Inl e # _) = Inl e"
| "sequence (Inr x # xs) = (case sequence xs of Inl e \<Rightarrow> Inl e | Inr ys \<Rightarrow> Inr (x # ys))"

text \<open>A loop or comprehension over \<open>d.items()\<close> that stores one computed value under each
  key of \<open>d\<close>, in the order of \<open>d\<close>.\<close>

definition map_items :: "(string \<Rightarrow> 'a \<Rightarrow> 'e + 'b) \<Rightarrow> 'a pydict \<Rightarrow> 'e + 'b pydict" where
  "map_items f d =
     sequence (map (\<lambda>(key, v). case f key v of Inl e \<Rightarrow> Inl e | Inr w \<Rightarrow> Inr (key, w)) d)"

text \<open>\<open>sum(values)\<close>: the int 0, to which the elements are added from left to right.\<close>

definition py_sum :: "('n, 'x) arith_scheme \<Rightarrow> 'n list \<Rightarrow> 'n" where
  "py_sum ar values = foldl (num_add ar) (num_of_int ar 0) values"

text \<open>\<open>df.iloc[r, lo:hi].values\<close>: a row position outside the frame raises \<open>IndexError\<close>; a
  slice is cut to the columns that exist and never raises.\<close>

definition iloc_row :: "'n dataframe \<Rightarrow> nat \<Rightarrow> nat \<Rightarrow> nat \<Rightarrow> py_error + 'n list" where
  "iloc_row df r lo hi =
     (if r < nrows df then Inr (map (cell df r) [lo..<min hi (ncols df)]) else Inl IndexError)"

text \<open>\<open>d[key]\<close> on a dictionary and \<open>frame.loc[label]\<close> on a frame's rows.\<close>

definition getitem :: "'v pydict \<Rightarrow> string \<Rightarrow> py_error + 'v" where
  "getitem d key = (case map_of d key of None \<Rightarrow> Inl KeyError | Some v \<Rightarrow> Inr v)"

text \<open>\<open>str(i)\<close> for a natural number, for the labels \<open>f"Month {i}"\<close>.\<close>

fun str_nat :: "nat \<Rightarrow> string" where
  "str_nat n =
     (if n < 10 then [char_of (48 + n)] else str_nat (n div 10) @ [char_of (48 + n mod 10)])"

declare str_nat.simps [simp del]

text \<open>\<open>frame.reindex(labels)\<close>: the rows in the order of \<open>labels\<close>. pandas fills the row of a
  label the frame does not have with NaN; \<open>build_new_df\<close> reindexes only after it has read or
  written every one of the eight labels, so no such row arises there.\<close>

definition reindex :: "string list \<Rightarrow> 'n list pydict \<Rightarrow> 'n list pydict" where
  "reindex labels frame =
     List.map_filter (\<lambda>label. map_option (Pair label) (map_of frame label)) labels"

section \<open>Extraction: main_flow\<close>

text \<open>The values \<open>df.iloc[r, 1:14].values\<close> of a row that exists.\<close>

definition sliced :: "'n dataframe \<Rightarrow> nat \<Rightarrow> 'n list" where
  "sliced df r = map (cell df r) [1..<min 14 (ncols df)]"

definition identify_key_sections :: "'n dataframe \<Rightarrow> py_error + 'n list pydict" where
  "identify_key_sections df =
     (case iloc_row df 2 1 14 of Inl e \<Rightarrow> Inl e | Inr product \<Rightarrow>
      case iloc_row df 3 1 14 of Inl e \<Rightarrow> Inl e | Inr service \<Rightarrow>
      case iloc_row df 6 1 14 of Inl e \<Rightarrow> Inl e | Inr cogs \<Rightarrow>
      case iloc_row df 7 1 14 of Inl e \<Rightarrow> Inl e | Inr marketing \<Rightarrow>
      case iloc_row df 8 1 14 of Inl e \<Rightarrow> Inl e | Inr staff \<Rightarrow>
      Inr [(PRODUCT_SALES, product), (SERVICE_SALES, service), (COGS, cogs),
           (MARKETING, marketing), (STAFF_SALARIES, staff)])"

text \<open>The expression \<open>round((values[i] - values[i - 1]) / values[i - 1], 2)\<close>, one element of
  the comprehension in \<open>calculate_growth_rates\<close>, for \<open>1 \<le> i < len(values)\<close>: \<open>None\<close> where the
  division raises.\<close>

definition growth_rate :: "('n, 'x) arith_scheme \<Rightarrow> 'n list \<Rightarrow> nat \<Rightarrow> 'n option" where
  "growth_rate ar values i =
     map_option (num_round ar)
       (num_div ar (num_sub ar (values ! i) (values ! (i - 1))) (values ! (i - 1)))"

definition growth_at :: "('n, 'x) arith_scheme \<Rightarrow> 'n list \<Rightarrow> nat \<Rightarrow> py_error + 'n" where
  "growth_at ar values i =
     (case growth_rate ar values i of None \<Rightarrow> Inl ZeroDivisionError | Some g \<Rightarrow> Inr g)"

definition growth_series :: "('n, 'x) arith_scheme \<Rightarrow> 'n list \<Rightarrow> py_error + 'n list" where
  "growth_series ar values = sequence (map (growth_at ar values) [1..<length values])"

definition calculate_growth_rates ::
  "('n, 'x) arith_scheme \<Rightarrow> 'n list pydict \<Rightarrow> py_error + 'n list pydict" where
  "calculate_growth_rates ar section_data =
     map_items (\<lambda>key values. growth_series ar values) section_data"

text \<open>\<open>round(sum(values) / len(values), 2)\<close>. For an empty list the operands are the
  Python ints 0 and 0, whose division raises; otherwise the sum is divided by a length that
  is not zero.\<close>

definition average :: "('n, 'x) arith_scheme \<Rightarrow> 'n list \<Rightarrow> py_error + 'n" where
  "average ar values =
     (if values = [] then Inl ZeroDivisionError
      else case num_div ar (py_sum ar values) (num_of_int ar (int (length values))) of
             None \<Rightarrow> Inl ZeroDivisionError
           | Some q \<Rightarrow> Inr (num_round ar q))"

text \<open>\<open>values[0]\<close>.\<close>

definition first :: "'n list \<Rightarrow> py_error + 'n" where
  "first values = (case values of [] \<Rightarrow> Inl IndexError | v # _ \<Rightarrow> Inr v)"

definition main_flow :: "('n, 'x) arith_scheme \<Rightarrow> 'n dataframe \<Rightarrow> py_error + 'n assumptions" where
  "main_flow ar df =
     (case identify_key_sections df of Inl e \<Rightarrow> Inl e | Inr sections_data \<Rightarrow>
      case calculate_growth_rates ar sections_data of Inl e \<Rightarrow> Inl e | Inr growth_rates \<Rightarrow>
      let static = map fst (filter (\<lambda>(key, values). \<exists>v \<in> set values. num_eq0 ar v) growth_rates) in
      case map_items (\<lambda>key values. average ar values)
             (filter (\<lambda>(key, values). key \<notin> set static) growth_rates) of
        Inl e \<Rightarrow> Inl e
      | Inr avg \<Rightarrow>
      case map_items (\<lambda>key values. first values) sections_data of
        Inl e \<Rightarrow> Inl e
      | Inr initial \<Rightarrow>
      Inr \<lparr>static_keys = static, avg_growth_rates = avg, initial_values = initial\<rparr>)"

text \<open>The invariant of the assumptions: no static category has an average growth rate.\<close>

definition no_static_rate :: "'n assumptions \<Rightarrow> bool" where
  "no_static_rate a = (set (static_keys a) \<inter> fst ` set (avg_growth_rates a) = {})"

text \<open>What the data model asks of an assumptions record: an initial value for each of the five
  categories, in their order, and a rate for each category that is not static.\<close>

definition well_formed :: "'n assumptions \<Rightarrow> bool" where
  "well_formed a =
     (map fst (initial_values a) = category_names \<and>
      list_all (\<lambda>key. key \<in> set (static_keys a) \<or> key \<in> fst ` set (avg_growth_rates a))
        category_names)"

section \<open>Projection: build_new_df\<close>

text \<open>The expression \<open>round(initial_value * (1 + rate) ** period, 2)\<close>: \<open>None\<close> where the power
  raises.\<close>

definition compound :: "('n, 'x) arith_scheme \<Rightarrow> 'n \<Rightarrow> 'n \<Rightarrow> nat \<Rightarrow> 'n option" where
  "compound ar initial_value rate period =
     map_option (\<lambda>power. num_round ar (num_mul ar initial_value power))
       (num_pow ar (num_add ar (num_of_int ar 1) rate) period)"

text \<open>The body of the loop over \<open>initial_values.items()\<close>: the series of one category. The rate
  is looked up inside the comprehension, once for each period, before the power is taken.\<close>

definition series ::
  "('n, 'x) arith_scheme \<Rightarrow> string list \<Rightarrow> 'n pydict \<Rightarrow> int \<Rightarrow> string \<Rightarrow> 'n \<Rightarrow> py_error + 'n list" where
  "series ar static rates periods key initial_value =
     (if key \<in> set static then Inr (replicate (nat (periods + 1)) initial_value)
      else sequence (map (\<lambda>period.
             case getitem rates key of
               Inl e \<Rightarrow> Inl e
             | Inr rate \<Rightarrow>
                 (case compound ar initial_value rate period of
                    None \<Rightarrow> Inl OverflowError
                  | Some v \<Rightarrow> Inr v))
           [0..<nat (periods + 1)]))"

definition new_table_data ::
  "('n, 'x) arith_scheme \<Rightarrow> 'n assumptions \<Rightarrow> int \<Rightarrow> py_error + 'n list pydict" where
  "new_table_data ar a periods =
     map_items (series ar (static_keys a) (avg_growth_rates a) periods) (initial_values a)"

text \<open>\<open>["Initial"] + [f"Month {i}" for i in range(1, periods + 1)]\<close>.\<close>

definition column_labels :: "int \<Rightarrow> string list" where
  "column_labels periods =
     ''Initial'' # map (\<lambda>i. ''Month '' @ str_nat i) [1..<nat (periods + 1)]"

text \<open>The frame built from the dictionary and transposed has one row for each key and as
  many columns as the series are long (all have the same length; none when the dictionary
  is empty). Assigning \<open>.columns\<close> raises \<open>ValueError\<close> unless there is one label for each
  column.\<close>

definition frame_width :: "'n list pydict \<Rightarrow> nat" where
  "frame_width d = (case d of [] \<Rightarrow> 0 | (key, s) # _ \<Rightarrow> length s)"

text \<open>The rest of \<open>build_new_df\<close>, from the loop on, on the assumptions as mutated. The rows
  are added and subtracted cell by cell with the operations of the numbers.\<close>

definition tabulate :: "('n, 'x) arith_scheme \<Rightarrow> 'n assumptions \<Rightarrow> int \<Rightarrow> py_error + 'n projection" where
  "tabulate ar a periods =
     (case new_table_data ar a periods of Inl e \<Rightarrow> Inl e | Inr frame0 \<Rightarrow>
      if length (column_labels periods) \<noteq> frame_width frame0 then Inl ValueError else
      case getitem frame0 PRODUCT_SALES of Inl e \<Rightarrow> Inl e | Inr product \<Rightarrow>
      case getitem frame0 SERVICE_SALES of Inl e \<Rightarrow> Inl e | Inr service \<Rightarrow>
      let frame1 = AList.update TOTAL_SALES (map2 (num_add ar) product service) frame0 in
      case getitem frame1 COGS of Inl e \<Rightarrow> Inl e | Inr cogs \<Rightarrow>
      case getitem frame1 MARKETING of Inl e \<Rightarrow> Inl e | Inr marketing \<Rightarrow>
      case getitem frame1 STAFF_SALARIES of Inl e \<Rightarrow> Inl e | Inr staff \<Rightarrow>
      let frame2 = AList.update TOTAL_OPEX
             (map2 (num_add ar) (map2 (num_add ar) cogs marketing) staff) frame1 in
      case getitem frame2 TOTAL_SALES of Inl e \<Rightarrow> Inl e | Inr total_sales \<Rightarrow>
      case getitem frame2 TOTAL_OPEX of Inl e \<Rightarrow> Inl e | Inr total_opex \<Rightarrow>
      let frame3 = AList.update NET_INCOME (map2 (num_sub ar) total_sales total_opex) frame2 in
      Inr \<lparr>columns = ''Category'' # column_labels periods, rows = reindex row_order frame3\<rparr>)"

text \<open>\<open>build_new_df\<close> closes over \<open>assumptions_data\<close> and overwrites two of its rates before
  anything can fail: the function returns the assumptions as it leaves them, together with
  the frame or the exception.\<close>

definition build_new_df ::
  "('n, 'x) arith_scheme \<Rightarrow> 'n assumptions \<Rightarrow> int \<Rightarrow> int \<Rightarrow> int \<Rightarrow>
     'n assumptions \<times> (py_error + 'n projection)" where
  "build_new_df ar assumptions_data periods product_sales_rate service_sales_rate =
     (let rates = AList.update SERVICE_SALES (num_percent ar service_sales_rate)
                    (AList.update PRODUCT_SALES (num_percent ar product_sales_rate)
                       (avg_growth_rates assumptions_data));
          a = assumptions_data\<lparr>avg_growth_rates := rates\<rparr>
      in (a, tabulate ar a periods))"

text \<open>Some power that the loop takes raises: a category that is not static, its rate, and a
  period up to \<open>periods\<close>.\<close>

definition overflows :: "('n, 'x) arith_scheme \<Rightarrow> 'n assumptions \<Rightarrow> int \<Rightarrow> bool" where
  "overflows ar a periods =
     list_ex (\<lambda>key. key \<notin> set (static_keys a) \<and>
        (case map_of (avg_growth_rates a) key of
           None \<Rightarrow> False
         | Some rate \<Rightarrow>
             list_ex (\<lambda>period. num_pow ar (num_add ar (num_of_int ar 1) rate) period = None)
               [0..<nat (periods + 1)]))
       category_names"

section \<open>Two sample arithmetics\<close>

text \<open>
  The theorems are instantiated on two arithmetics over the rationals extended by the two
  infinities and NaN. Both compute exactly on finite values, so they agree with binary
  floating point wherever every value that arises is an integer or a dyadic fraction of
  moderate size, as in the tables below. They differ as the number types of the run differ:
  \<^item> \<open>python_arith\<close>, for Python's \<open>int\<close> and \<open>float\<close>: \<open>/\<close> raises on a zero divisor and \<open>**\<close>
    raises when the power of a finite number leaves the range of binary64;
  \<^item> \<open>numpy_arith\<close>, for \<open>numpy.float64\<close>: neither raises, the result is an infinity or NaN.
\<close>

datatype xnum = Finite rat | PosInf | NegInf | NaN

fun is_neg :: "xnum \<Rightarrow> bool" where
  "is_neg (Finite a) = (a < 0)"
| "is_neg NegInf = True"
| "is_neg _ = False"

fun xneg :: "xnum \<Rightarrow> xnum" where
  "xneg (Finite a) = Finite (- a)"
| "xneg PosInf = NegInf"
| "xneg NegInf = PosInf"
| "xneg NaN = NaN"

fun xadd :: "xnum \<Rightarrow> xnum \<Rightarrow> xnum" where
  "xadd (Finite a) (Finite b) = Finite (a + b)"
| "xadd NaN _ = NaN"
| "xadd _ NaN = NaN"
| "xadd PosInf NegInf = NaN"
| "xadd NegInf PosInf = NaN"
| "xadd (Finite a) y = y"
| "xadd x _ = x"

definition xsub :: "xnum \<Rightarrow> xnum \<Rightarrow> xnum" where
  "xsub x y = xadd x (xneg y)"

fun xmul :: "xnum \<Rightarrow> xnum \<Rightarrow> xnum" where
  "xmul (Finite a) (Finite b) = Finite (a * b)"
| "xmul NaN _ = NaN"
| "xmul _ NaN = NaN"
| "xmul x y =
     (if x = Finite 0 \<or> y = Finite 0 then NaN
      else if is_neg x = is_neg y then PosInf else NegInf)"

fun xdiv :: "xnum \<Rightarrow> xnum \<Rightarrow> xnum" where
  "xdiv (Finite a) (Finite b) =
     (if b \<noteq> 0 then Finite (a / b)
      else if a = 0 then NaN else if a < 0 then NegInf else PosInf)"
| "xdiv NaN _ = NaN"
| "xdiv _ NaN = NaN"
| "xdiv (Finite a) _ = Finite 0"
| "xdiv x (Finite b) = (if is_neg x = (b < 0) then PosInf else NegInf)"
| "xdiv _ _ = NaN"

text \<open>The bound of binary64, \<open>2 ** 1024\<close>, written out.\<close>

definition overflow_bound :: rat where
  "overflow_bound =
     179769313486231590772930519078902473361797697894230657273430081157732675805500963132708477322407536021120113879871393357658789768814416622492847430639474124377767893424865485276302219601246094119453082952085005768838150682342462881473913110540827237163350510684586298239947245938479716304835356329624224137216"

fun xpow :: "xnum \<Rightarrow> nat \<Rightarrow> xnum" where
  "xpow x 0 = Finite 1"
| "xpow (Finite a) n =
     (if \<bar>a ^ n\<bar> < overflow_bound then Finite (a ^ n)
      else if a < 0 \<and> odd n then NegInf else PosInf)"
| "xpow NaN n = NaN"
| "xpow x n = (if is_neg x \<and> odd n then NegInf else PosInf)"

definition round_half_even :: "rat \<Rightarrow> int" where
  "round_half_even x =
     (let f = \<lfloor>x\<rfloor>; d = x - of_int f
      in if d < 1 / 2 then f else if 1 / 2 < d then f + 1 else if even f then f else f + 1)"

fun xround :: "xnum \<Rightarrow> xnum" where
  "xround (Finite a) = Finite (of_int (round_half_even (a * 100)) / 100)"
| "xround x = x"

definition numpy_arith :: "xnum arith" where
  "numpy_arith = \<lparr>num_of_int = (\<lambda>i. Finite (of_int i)),
     num_percent = (\<lambda>i. Finite (of_int i / 100)),
     num_add = xadd, num_sub = xsub, num_mul = xmul,
     num_div = (\<lambda>a b. Some (xdiv a b)),
     num_pow = (\<lambda>a n. Some (xpow a n)),
     num_round = xround,
     num_eq0 = (\<lambda>a. a = Finite 0)\<rparr>"

definition python_arith :: "xnum arith" where
  "python_arith = numpy_arith
     \<lparr>num_div := (\<lambda>a b. if b = Finite 0 then None else Some (xdiv a b)),
      num_pow := (\<lambda>a n. case (a, xpow a n) of
                    (Finite _, PosInf) \<Rightarrow> None
                  | (Finite _, NegInf) \<Rightarrow> None
                  | (_, p) \<Rightarrow> Some p)\<rparr>"

section \<open>Worked examples\<close>

text \<open>A table of the expected shape: Product Sales doubles every month from 100, Service
  Sales doubles every month from 2, the three expense rows are constant at 7, 8 and 9. With
  three periods and the sliders at 100 and 0 percent it gives the projection below.\<close>

definition example_table :: "xnum dataframe" where
  "example_table = \<lparr>nrows = 9, ncols = 14,
     cell = (\<lambda>r c. if r = 2 then Finite (100 * 2 ^ (c - 1))
                  else if r = 3 then Finite (2 * 2 ^ (c - 1)) else Finite (of_nat (r + 1)))\<rparr>"

definition example_assumptions :: "xnum assumptions" where
  "example_assumptions = \<lparr>static_keys = [COGS, MARKETING, STAFF_SALARIES],
     avg_growth_rates = [(PRODUCT_SALES, Finite 1), (SERVICE_SALES, Finite 1)],
     initial_values = [(PRODUCT_SALES, Finite 100), (SERVICE_SALES, Finite 2), (COGS, Finite 7),
       (MARKETING, Finite 8), (STAFF_SALARIES, Finite 9)]\<rparr>"

definition example_overridden :: "xnum assumptions" where
  "example_overridden = example_assumptions
     \<lparr>avg_growth_rates := [(PRODUCT_SALES, Finite 1), (SERVICE_SALES, Finite 0)]\<rparr>"

definition example_projection :: "xnum projection" where
  "example_projection = \<lparr>columns = [''Category'', ''Initial'', ''Month 1'', ''Month 2'', ''Month 3''],
     rows = [(PRODUCT_SALES, [Finite 100, Finite 200, Finite 400, Finite 800]),
             (SERVICE_SALES, [Finite 2, Finite 2, Finite 2, Finite 2]),
             (TOTAL_SALES, [Finite 102, Finite 202, Finite 402, Finite 802]),
             (COGS, [Finite 7, Finite 7, Finite 7, Finite 7]),
             (MARKETING, [Finite 8, Finite 8, Finite 8, Finite 8]),
             (STAFF_SALARIES, [Finite 9, Finite 9, Finite 9, Finite 9]),
             (TOTAL_OPEX, [Finite 24, Finite 24, Finite 24, Finite 24]),
             (NET_INCOME, [Finite 78, Finite 178, Finite 378, Finite 778])]\<rparr>"

text \<open>A second table, with more than two decimal places: Product Sales doubles every month
  from 1.251953125 (which is 641/512) and every other row is constant at that value. One
  period, sliders at 100 and 0 percent.\<close>

definition fine_table :: "xnum dataframe" where
  "fine_table = \<lparr>nrows = 9, ncols = 14,
     cell = (\<lambda>r c. if r = 2 then Finite (641 / 512 * 2 ^ (c - 1)) else Finite (641 / 512))\<rparr>"

definition fine_assumptions :: "xnum assumptions" where
  "fine_assumptions = \<lparr>static_keys = [SERVICE_SALES, COGS, MARKETING, STAFF_SALARIES],
     avg_growth_rates = [(PRODUCT_SALES, Finite 1)],
     initial_values = [(PRODUCT_SALES, Finite (641 / 512)), (SERVICE_SALES, Finite (641 / 512)),
       (COGS, Finite (641 / 512)), (MARKETING, Finite (641 / 512)),
       (STAFF_SALARIES, Finite (641 / 512))]\<rparr>"

definition fine_overridden :: "xnum assumptions" where
  "fine_overridden = fine_assumptions
     \<lparr>avg_growth_rates := [(PRODUCT_SALES, Finite 1), (SERVICE_SALES, Finite 0)]\<rparr>"

definition fine_projection :: "xnum projection" where
  "fine_projection = \<lparr>columns = [''Category'', ''Initial'', ''Month 1''],
     rows = [(PRODUCT_SALES, [Finite (5 / 4), Finite (5 / 2)]),
             (SERVICE_SALES, [Finite (641 / 512), Finite (641 / 512)]),
             (TOTAL_SALES, [Finite (1281 / 512), Finite (1921 / 512)]),
             (COGS, [Finite (641 / 512), Finite (641 / 512)]),
             (MARKETING, [Finite (641 / 512), Finite (641 / 512)]),
             (STAFF_SALARIES, [Finite (641 / 512), Finite (641 / 512)]),
             (TOTAL_OPEX, [Finite (1923 / 512), Finite (1923 / 512)]),
             (NET_INCOME, [Finite (- (321 / 256)), Finite (- (1 / 256))])]\<rparr>"

text \<open>The second table cut to three columns.\<close>

definition narrow_table :: "xnum dataframe" where
  "narrow_table = \<lparr>nrows = 9, ncols = 3,
     cell = (\<lambda>r c. if r = 2 then Finite (641 / 512 * 2 ^ (c - 1)) else Finite (641 / 512))\<rparr>"

text \<open>The first table with a zero in the first month of Cost of Goods Sold, which is 5 in the
  months after: the first growth rate of that row divides by zero.\<close>

definition zero_table :: "xnum dataframe" where
  "zero_table = \<lparr>nrows = 9, ncols = 14,
     cell = (\<lambda>r c. if r = 2 then Finite (100 * 2 ^ (c - 1))
                  else if r = 3 then Finite (2 * 2 ^ (c - 1))
                  else if r = 6 then (if c = 1 then Finite 0 else Finite 5)
                  else Finite (of_nat (r + 1)))\<rparr>"

definition zero_assumptions :: "xnum assumptions" where
  "zero_assumptions = \<lparr>static_keys = [COGS, MARKETING, STAFF_SALARIES],
     avg_growth_rates = [(PRODUCT_SALES, Finite 1), (SERVICE_SALES, Finite 1)],
     initial_values = [(PRODUCT_SALES, Finite 100), (SERVICE_SALES, Finite 2), (COGS, Finite 0),
       (MARKETING, Finite 8), (STAFF_SALARIES, Finite 9)]\<rparr>"

section \<open>Basic facts\<close>

lemma sequence_map_Inr: "sequence (map Inr ys) = Inr ys"
  by (induction ys) auto

lemma sequence_InrD: "sequence xs = Inr ys \<Longrightarrow> xs = map Inr ys"
  by (induction xs arbitrary: ys rule: sequence.induct) (auto split: sum.splits)

lemma sequence_Inr_iff: "sequence xs = Inr ys \<longleftrightarrow> xs = map Inr ys"
  using sequence_InrD sequence_map_Inr by blast

text \<open>A comprehension whose elements raise one exception \<open>e\<close> or return.\<close>

lemma map_option_case_eq:
  "map (\<lambda>x. case f x of None \<Rightarrow> Inl e | Some v \<Rightarrow> Inr v) xs = map Inr ys \<longleftrightarrow>
     map f xs = map Some ys"
proof (induction xs arbitrary: ys)
  case Nil
  then show ?case by auto
next
  case (Cons x xs)
  then show ?case
    by (cases ys) (auto split: option.splits)
qed

lemma sequence_option_Inr:
  "sequence (map (\<lambda>x. case f x of None \<Rightarrow> Inl e | Some v \<Rightarrow> Inr v) xs) = Inr ys \<longleftrightarrow>
     map f xs = map Some ys"
  by (simp only: sequence_Inr_iff map_option_case_eq)

lemma sequence_option_Inl:
  "sequence (map (\<lambda>x. case f x of None \<Rightarrow> Inl e | Some v \<Rightarrow> Inr v) xs) = Inl e' \<longleftrightarrow>
     e' = e \<and> (\<exists>x \<in> set xs. f x = None)"
proof (induction xs)
  case Nil
  then show ?case by auto
next
  case (Cons x xs)
  then show ?case
    by (cases "f x") (auto split: sum.splits)
qed

lemma map_items_Nil: "map_items f [] = Inr []"
  by (simp add: map_items_def)

lemma map_items_Cons:
  "map_items f ((k, v) # d) =
     (case f k v of Inl e \<Rightarrow> Inl e
      | Inr w \<Rightarrow> (case map_items f d of Inl e \<Rightarrow> Inl e | Inr d' \<Rightarrow> Inr ((k, w) # d')))"
  by (simp add: map_items_def split: sum.splits)

lemma map_items_keys: "map_items f d = Inr d' \<Longrightarrow> map fst d' = map fst d"
  by (induction d arbitrary: d') (auto simp: map_items_Nil map_items_Cons split: sum.splits)

lemma map_items_map_of:
  "map_items f d = Inr d' \<Longrightarrow> map_of d k = Some v \<Longrightarrow> \<exists>w. f k v = Inr w \<and> map_of d' k = Some w"
  by (induction d arbitrary: d') (auto simp: map_items_Nil map_items_Cons split: sum.splits if_splits)

lemma map_items_map_of_rev:
  "map_items f d = Inr d' \<Longrightarrow> map_of d' k = Some w \<Longrightarrow> \<exists>v. map_of d k = Some v \<and> f k v = Inr w"
  by (induction d arbitrary: d') (auto simp: map_items_Nil map_items_Cons split: sum.splits if_splits)

lemma map_items_Inr_all:
  "map_items f d = Inr d' \<Longrightarrow> (k, v) \<in> set d \<Longrightarrow> \<exists>w. f k v = Inr w"
  by (induction d arbitrary: d') (auto simp: map_items_Nil map_items_Cons split: sum.splits)

lemma map_items_Inl:
  "map_items f d = Inl e \<Longrightarrow> \<exists>k v. (k, v) \<in> set d \<and> f k v = Inl e"
  by (induction d) (fastforce simp: map_items_Nil map_items_Cons split: sum.splits)+

lemma map_items_total:
  assumes "\<And>k v. (k, v) \<in> set d \<Longrightarrow> \<exists>w. f k v = Inr w"
  shows "\<exists>d'. map_items f d = Inr d'"
proof (cases "map_items f d")
  case (Inl e)
  from map_items_Inl [OF this] obtain k v where "(k, v) \<in> set d" "f k v = Inl e"
    by blast
  with assms show ?thesis by fastforce
next
  case (Inr d')
  then show ?thesis by blast
qed

text \<open>When every element that raises raises \<open>e\<close>, and one does, the loop raises \<open>e\<close>.\<close>

lemma map_items_raises:
  assumes "\<And>k v e'. (k, v) \<in> set d \<Longrightarrow> f k v = Inl e' \<Longrightarrow> e' = e"
    and "(k, v) \<in> set d" and "f k v = Inl e''"
  shows "map_items f d = Inl e"
proof (cases "map_items f d")
  case (Inl e')
  from map_items_Inl [OF this] assms(1) show ?thesis
    using Inl by blast
next
  case (Inr d')
  from map_items_Inr_all [OF this assms(2)] assms(3) show ?thesis by auto
qed

lemma getitem_Inl: "getitem d k = Inl e \<longleftrightarrow> map_of d k = None \<and> e = KeyError"
  by (auto simp add: getitem_def split: option.splits)

lemma getitem_error: "getitem d k = Inl e \<Longrightarrow> e = KeyError"
  by (simp add: getitem_Inl)

lemma key_neq:
  shows "PRODUCT_SALES \<noteq> SERVICE_SALES" "PRODUCT_SALES \<noteq> TOTAL_SALES" "PRODUCT_SALES \<noteq> COGS" "PRODUCT_SALES \<noteq> MARKETING" "PRODUCT_SALES \<noteq> STAFF_SALARIES" "PRODUCT_SALES \<noteq> TOTAL_OPEX" "PRODUCT_SALES \<noteq> NET_INCOME"
    "SERVICE_SALES \<noteq> PRODUCT_SALES" "SERVICE_SALES \<noteq> TOTAL_SALES" "SERVICE_SALES \<noteq> COGS" "SERVICE_SALES \<noteq> MARKETING" "SERVICE_SALES \<noteq> STAFF_SALARIES" "SERVICE_SALES \<noteq> TOTAL_OPEX" "SERVICE_SALES \<noteq> NET_INCOME"
    "TOTAL_SALES \<noteq> PRODUCT_SALES" "TOTAL_SALES \<noteq> SERVICE_SALES" "TOTAL_SALES \<noteq> COGS" "TOTAL_SALES \<noteq> MARKETING" "TOTAL_SALES \<noteq> STAFF_SALARIES" "TOTAL_SALES \<noteq> TOTAL_OPEX" "TOTAL_SALES \<noteq> NET_INCOME"
    "COGS \<noteq> PRODUCT_SALES" "COGS \<noteq> SERVICE_SALES" "COGS \<noteq> TOTAL_SALES" "COGS \<noteq> MARKETING" "COGS \<noteq> STAFF_SALARIES" "COGS \<noteq> TOTAL_OPEX" "COGS \<noteq> NET_INCOME"
    "MARKETING \<noteq> PRODUCT_SALES" "MARKETING \<noteq> SERVICE_SALES" "MARKETING \<noteq> TOTAL_SALES" "MARKETING \<noteq> COGS" "MARKETING \<noteq> STAFF_SALARIES" "MARKETING \<noteq> TOTAL_OPEX" "MARKETING \<noteq> NET_INCOME"
    "STAFF_SALARIES \<noteq> PRODUCT_SALES" "STAFF_SALARIES \<noteq> SERVICE_SALES" "STAFF_SALARIES \<noteq> TOTAL_SALES" "STAFF_SALARIES \<noteq> COGS" "STAFF_SALARIES \<noteq> MARKETING" "STAFF_SALARIES \<noteq> TOTAL_OPEX" "STAFF_SALARIES \<noteq> NET_INCOME"
    "TOTAL_OPEX \<noteq> PRODUCT_SALES" "TOTAL_OPEX \<noteq> SERVICE_SALES" "TOTAL_OPEX \<noteq> TOTAL_SALES" "TOTAL_OPEX \<noteq> COGS" "TOTAL_OPEX \<noteq> MARKETING" "TOTAL_OPEX \<noteq> STAFF_SALARIES" "TOTAL_OPEX \<noteq> NET_INCOME"
    "NET_INCOME \<noteq> PRODUCT_SALES" "NET_INCOME \<noteq> SERVICE_SALES" "NET_INCOME \<noteq> TOTAL_SALES" "NET_INCOME \<noteq> COGS" "NET_INCOME \<noteq> MARKETING" "NET_INCOME \<noteq> STAFF_SALARIES" "NET_INCOME \<noteq> TOTAL_OPEX"
  by (simp_all add: PRODUCT_SALES_def SERVICE_SALES_def TOTAL_SALES_def COGS_def
      MARKETING_def STAFF_SALARIES_def TOTAL_OPEX_def NET_INCOME_def)

lemma category_cases:
  "key \<in> set category_names \<longleftrightarrow>
     key = PRODUCT_SALES \<or> key = SERVICE_SALES \<or> key = COGS \<or> key = MARKETING \<or> key = STAFF_SALARIES"
  by (auto simp: category_names_def)

lemma distinct_category_names: "distinct category_names"
  by (simp add: category_names_def key_neq)

subsection \<open>The series of one category\<close>

lemma series_static:
  "key \<in> set static \<Longrightarrow>
   series ar static rates periods key iv = Inr (replicate (nat (periods + 1)) iv)"
  by (simp add: series_def)

lemma series_growing:
  "key \<notin> set static \<Longrightarrow> map_of rates key = Some rate \<Longrightarrow>
   series ar static rates periods key iv =
     sequence (map (\<lambda>period. case compound ar iv rate period of
                       None \<Rightarrow> Inl OverflowError | Some v \<Rightarrow> Inr v) [0..<nat (periods + 1)])"
  by (simp add: series_def getitem_def)

lemma series_missing:
  "key \<notin> set static \<Longrightarrow> map_of rates key = None \<Longrightarrow>
   series ar static rates periods key iv = (if periods < 0 then Inr [] else Inl KeyError)"
  apply (auto simp add: series_def getitem_def)
  apply (cases "nat (periods + 1)")
   apply (auto simp: upt_conv_Cons simp del: upt_Suc)
  done

lemma series_negative: "periods < 0 \<Longrightarrow> series ar static rates periods key iv = Inr []"
  by (simp add: series_def)

lemma series_Inr_growing:
  assumes "key \<notin> set static" and "map_of rates key = Some rate"
  shows "series ar static rates periods key iv = Inr s \<longleftrightarrow>
     length s = nat (periods + 1) \<and> (\<forall>p < nat (periods + 1). compound ar iv rate p = Some (s ! p))"
proof -
  have "map (compound ar iv rate) [0..<nat (periods + 1)] = map Some s \<longleftrightarrow>
     length s = nat (periods + 1) \<and> (\<forall>p < nat (periods + 1). compound ar iv rate p = Some (s ! p))"
    by (auto simp: list_eq_iff_nth_eq)
  then show ?thesis
    by (simp add: series_growing [OF assms] sequence_option_Inr)
qed

lemma series_Inl_growing:
  assumes "key \<notin> set static" and "map_of rates key = Some rate"
  shows "series ar static rates periods key iv = Inl e \<longleftrightarrow>
     e = OverflowError \<and> (\<exists>p < nat (periods + 1). compound ar iv rate p = None)"
  by (auto simp add: series_growing [OF assms] sequence_option_Inl)

lemma series_length:
  assumes "series ar static rates periods key iv = Inr s"
  shows "length s = nat (periods + 1)"
proof (cases "key \<in> set static")
  case True
  with assms show ?thesis by (auto simp: series_static)
next
  case False
  show ?thesis
  proof (cases "map_of rates key")
    case None
    with False assms show ?thesis by (auto simp: series_missing split: if_splits)
  next
    case (Some rate)
    with False assms show ?thesis by (simp add: series_Inr_growing)
  qed
qed

lemma series_error:
  assumes "series ar static rates periods key iv = Inl e"
  shows "e = KeyError \<and> map_of rates key = None \<or> e = OverflowError"
proof (cases "key \<in> set static")
  case True
  with assms show ?thesis by (auto simp: series_static)
next
  case False
  show ?thesis
  proof (cases "map_of rates key")
    case None
    with False assms show ?thesis by (auto simp: series_missing split: if_splits)
  next
    case (Some rate)
    with False assms show ?thesis by (simp add: series_Inl_growing)
  qed
qed

lemma compound_None:
  "compound ar iv rate p = None \<longleftrightarrow> num_pow ar (num_add ar (num_of_int ar 1) rate) p = None"
  by (simp add: compound_def)

subsection \<open>The frame\<close>

lemma new_table_data_error:
  "new_table_data ar a periods = Inl e \<Longrightarrow> e = KeyError \<or> e = OverflowError"
  unfolding new_table_data_def using map_items_Inl series_error by metis

lemma new_table_data_lookup:
  assumes "new_table_data ar a periods = Inr frame0" and "map_of frame0 key = Some s"
  shows "\<exists>iv. map_of (initial_values a) key = Some iv \<and>
           series ar (static_keys a) (avg_growth_rates a) periods key iv = Inr s"
  using assms map_items_map_of_rev unfolding new_table_data_def by fast

lemma new_table_data_length:
  assumes "new_table_data ar a periods = Inr frame0" and "map_of frame0 key = Some s"
  shows "length s = nat (periods + 1)"
proof -
  from new_table_data_lookup [OF assms] obtain iv where
    "series ar (static_keys a) (avg_growth_rates a) periods key iv = Inr s" by blast
  then show ?thesis by (rule series_length)
qed

lemma new_table_data_width:
  assumes "new_table_data ar a periods = Inr frame0" and "frame0 \<noteq> []"
  shows "frame_width frame0 = nat (periods + 1)"
proof -
  from assms(2) obtain key s rest where f: "frame0 = (key, s) # rest"
    by (cases frame0) auto
  then have "map_of frame0 key = Some s" by simp
  from new_table_data_length [OF assms(1) this] f show ?thesis
    by (simp add: frame_width_def)
qed

lemma length_column_labels: "length (column_labels periods) = Suc (nat (periods + 1) - 1)"
  by (simp add: column_labels_def)

lemma tabulate_Inr:
  assumes "tabulate ar a periods = Inr t"
  shows "\<exists>frame0 product service cogs marketing staff.
     new_table_data ar a periods = Inr frame0 \<and> 0 \<le> periods \<and>
     map_of frame0 PRODUCT_SALES = Some product \<and> map_of frame0 SERVICE_SALES = Some service \<and>
     map_of frame0 COGS = Some cogs \<and> map_of frame0 MARKETING = Some marketing \<and>
     map_of frame0 STAFF_SALARIES = Some staff \<and>
     columns t = ''Category'' # column_labels periods \<and>
     rows t = [(PRODUCT_SALES, product), (SERVICE_SALES, service),
       (TOTAL_SALES, map2 (num_add ar) product service),
       (COGS, cogs), (MARKETING, marketing), (STAFF_SALARIES, staff),
       (TOTAL_OPEX, map2 (num_add ar) (map2 (num_add ar) cogs marketing) staff),
       (NET_INCOME, map2 (num_sub ar) (map2 (num_add ar) product service)
          (map2 (num_add ar) (map2 (num_add ar) cogs marketing) staff))]"
proof -
  from assms obtain frame0 where f0: "new_table_data ar a periods = Inr frame0"
    by (cases "new_table_data ar a periods") (auto simp: tabulate_def)
  from assms f0 have w: "length (column_labels periods) = frame_width frame0"
    by (auto simp: tabulate_def split: if_splits)
  from assms f0 w obtain product where p: "map_of frame0 PRODUCT_SALES = Some product"
    by (cases "map_of frame0 PRODUCT_SALES") (auto simp: tabulate_def getitem_def)
  from assms f0 w p obtain service where s: "map_of frame0 SERVICE_SALES = Some service"
    by (cases "map_of frame0 SERVICE_SALES") (auto simp: tabulate_def getitem_def)
  from assms f0 w p s obtain cogs where c: "map_of frame0 COGS = Some cogs"
    by (cases "map_of frame0 COGS")
      (auto simp: tabulate_def getitem_def Let_def AList.update_conv' key_neq)
  from assms f0 w p s c obtain marketing where m: "map_of frame0 MARKETING = Some marketing"
    by (cases "map_of frame0 MARKETING")
      (auto simp: tabulate_def getitem_def Let_def AList.update_conv' key_neq)
  from assms f0 w p s c m obtain staff where st: "map_of frame0 STAFF_SALARIES = Some staff"
    by (cases "map_of frame0 STAFF_SALARIES")
      (auto simp: tabulate_def getitem_def Let_def AList.update_conv' key_neq)
  from p have "frame0 \<noteq> []" by auto
  from new_table_data_width [OF f0 this] w have "0 \<le> periods"
    by (simp add: length_column_labels)
  moreover from assms f0 w p s c m st
  have "t = \<lparr>columns = ''Category'' # column_labels periods,
     rows = [(PRODUCT_SALES, product), (SERVICE_SALES, service),
       (TOTAL_SALES, map2 (num_add ar) product service),
       (COGS, cogs), (MARKETING, marketing), (STAFF_SALARIES, staff),
       (TOTAL_OPEX, map2 (num_add ar) (map2 (num_add ar) cogs marketing) staff),
       (NET_INCOME, map2 (num_sub ar) (map2 (num_add ar) product service)
          (map2 (num_add ar) (map2 (num_add ar) cogs marketing) staff))]\<rparr>"
    by (simp add: tabulate_def getitem_def Let_def AList.update_conv' key_neq reindex_def
        row_order_def List.map_filter_simps)
  ultimately show ?thesis using f0 p s c m st by simp
qed

lemma tabulate_negative:
  assumes "periods < 0"
  shows "tabulate ar a periods = Inl ValueError"
proof -
  from assms have "\<exists>frame0. new_table_data ar a periods = Inr frame0"
    unfolding new_table_data_def by (intro map_items_total) (simp add: series_negative)
  then obtain frame0 where f0: "new_table_data ar a periods = Inr frame0" ..
  have "frame_width frame0 = 0"
  proof (cases "frame0 = []")
    case True
    then show ?thesis by (simp add: frame_width_def)
  next
    case False
    from new_table_data_width [OF f0 this] assms show ?thesis by simp
  qed
  then show ?thesis
    by (simp add: tabulate_def f0 length_column_labels)
qed

lemma tabulate_error:
  assumes "tabulate ar a periods = Inl e"
  shows "e = KeyError \<or> e = OverflowError \<or>
         e = ValueError \<and> (periods < 0 \<or> initial_values a = [])"
proof (cases "new_table_data ar a periods")
  case (Inl e')
  with assms new_table_data_error [OF Inl] show ?thesis
    by (auto simp add: tabulate_def)
next
  case (Inr frame0)
  show ?thesis
  proof (cases "length (column_labels periods) = frame_width frame0")
    case True
    with assms Inr show ?thesis
      by (auto simp: tabulate_def Let_def split: sum.splits dest: getitem_error)
  next
    case False
    have "periods < 0 \<or> initial_values a = []"
    proof (rule ccontr)
      assume "\<not> ?thesis"
      then have p: "0 \<le> periods" and i: "initial_values a \<noteq> []" by auto
      from Inr have "map fst frame0 = map fst (initial_values a)"
        unfolding new_table_data_def by (rule map_items_keys)
      with i have "frame0 \<noteq> []" by auto
      from new_table_data_width [OF Inr this] p False show False
        by (simp add: length_column_labels)
    qed
    with assms Inr False show ?thesis by (simp add: tabulate_def)
  qed
qed

subsection \<open>build_new_df\<close>

lemma override_idem:
  assumes "k \<noteq> k'"
  shows "AList.update k' v' (AList.update k v (AList.update k' v' (AList.update k v al))) =
         AList.update k' v' (AList.update k v al)"
proof -
  have "AList.update k v (AList.update k' v' (AList.update k v al)) = AList.update k' v' (AList.update k v al)"
    using assms by (intro AList.update_triv) (simp add: AList.update_conv')
  then show ?thesis
    by (simp add: AList.update_last)
qed

lemma build_new_df_fst:
  "fst (build_new_df ar a periods psr ssr) =
     a\<lparr>avg_growth_rates := AList.update SERVICE_SALES (num_percent ar ssr)
          (AList.update PRODUCT_SALES (num_percent ar psr) (avg_growth_rates a))\<rparr>"
  by (simp add: build_new_df_def Let_def)

lemma build_new_df_snd:
  "snd (build_new_df ar a periods psr ssr) =
     tabulate ar (fst (build_new_df ar a periods psr ssr)) periods"
  by (simp add: build_new_df_def Let_def)

lemma build_new_df_static: "static_keys (fst (build_new_df ar a periods psr ssr)) = static_keys a"
  by (simp add: build_new_df_fst)

lemma build_new_df_initial:
  "initial_values (fst (build_new_df ar a periods psr ssr)) = initial_values a"
  by (simp add: build_new_df_fst)

lemma build_new_df_rates:
  "map_of (avg_growth_rates (fst (build_new_df ar a periods psr ssr))) =
     (map_of (avg_growth_rates a))
       (PRODUCT_SALES \<mapsto> num_percent ar psr, SERVICE_SALES \<mapsto> num_percent ar ssr)"
  by (simp add: build_new_df_fst AList.update_conv')

lemma build_new_df_rate_keys:
  "fst ` set (avg_growth_rates (fst (build_new_df ar a periods psr ssr))) =
     fst ` set (avg_growth_rates a) \<union> {PRODUCT_SALES, SERVICE_SALES}"
  by (auto simp: build_new_df_fst AList.dom_update)

lemma well_formed_iff:
  "well_formed a \<longleftrightarrow>
     map fst (initial_values a) = category_names \<and>
     (\<forall>key \<in> set category_names.
        key \<in> set (static_keys a) \<or> key \<in> fst ` set (avg_growth_rates a))"
  by (simp add: well_formed_def list_all_iff)

lemma build_new_df_well_formed:
  "well_formed a \<Longrightarrow> well_formed (fst (build_new_df ar a periods psr ssr))"
  unfolding well_formed_iff build_new_df_static build_new_df_initial build_new_df_rate_keys
  by blast

lemma overflows_iff:
  "overflows ar a periods \<longleftrightarrow>
     (\<exists>key \<in> set category_names. \<exists>rate. \<exists>period < nat (periods + 1).
        key \<notin> set (static_keys a) \<and> map_of (avg_growth_rates a) key = Some rate \<and>
        num_pow ar (num_add ar (num_of_int ar 1) rate) period = None)"
proof -
  have "(case map_of (avg_growth_rates a) key of None \<Rightarrow> False
         | Some rate \<Rightarrow> list_ex (\<lambda>period. num_pow ar (num_add ar (num_of_int ar 1) rate) period = None)
               [0..<nat (periods + 1)]) \<longleftrightarrow>
        (\<exists>rate. \<exists>period < nat (periods + 1). map_of (avg_growth_rates a) key = Some rate \<and>
           num_pow ar (num_add ar (num_of_int ar 1) rate) period = None)" for key
    by (cases "map_of (avg_growth_rates a) key") (auto simp: list_ex_iff)
  then show ?thesis
    unfolding overflows_def list_ex_iff by blast
qed

text \<open>On well-formed assumptions and with \<open>periods \<ge> 0\<close>, the loop raises exactly when a power
  raises, and a frame is returned otherwise.\<close>

lemma new_table_data_well_formed:
  assumes wf: "well_formed a"
  shows "if overflows ar a periods then new_table_data ar a periods = Inl OverflowError
         else \<exists>frame0. new_table_data ar a periods = Inr frame0"
proof -
  let ?f = "series ar (static_keys a) (avg_growth_rates a) periods"
  from wf have keys: "map fst (initial_values a) = category_names"
    and rates: "\<And>key. key \<in> set category_names \<Longrightarrow>
        key \<in> set (static_keys a) \<or> key \<in> fst ` set (avg_growth_rates a)"
    by (auto simp: well_formed_iff)
  have cat: "key \<in> set category_names" if "(key, iv) \<in> set (initial_values a)" for key iv
    using that keys by (metis fst_conv image_eqI set_map)
  have rate: "\<exists>rate. map_of (avg_growth_rates a) key = Some rate"
    if "key \<in> set category_names" "key \<notin> set (static_keys a)" for key
    using rates [OF that(1)] that(2) by (metis map_of_eq_None_iff not_Some_eq)
  have only: "e = OverflowError" if "(key, iv) \<in> set (initial_values a)" "?f key iv = Inl e"
    for key iv e
  proof -
    from series_error [OF that(2)] show ?thesis
    proof
      assume k: "e = KeyError \<and> map_of (avg_growth_rates a) key = None"
      from that(2) have "key \<notin> set (static_keys a)"
        by (auto simp: series_static)
      from rate [OF cat [OF that(1)] this] k show ?thesis by simp
    qed
  qed
  show ?thesis
  proof (cases "overflows ar a periods")
    case True
    then obtain key rate period where k: "key \<in> set category_names"
      and p: "period < nat (periods + 1)" and s: "key \<notin> set (static_keys a)"
      and r: "map_of (avg_growth_rates a) key = Some rate"
      and o: "num_pow ar (num_add ar (num_of_int ar 1) rate) period = None"
      unfolding overflows_iff by blast
    from k keys obtain iv where i: "(key, iv) \<in> set (initial_values a)"
      by (metis (no_types, opaque_lifting) fst_conv imageE set_map prod.collapse)
    from p o have "?f key iv = Inl OverflowError"
      by (auto simp: series_Inl_growing [OF s r] compound_None)
    with only i have "new_table_data ar a periods = Inl OverflowError"
      unfolding new_table_data_def by (intro map_items_raises [of _ ?f]) blast+
    with True show ?thesis by simp
  next
    case False
    have "\<exists>s. ?f key iv = Inr s" if i: "(key, iv) \<in> set (initial_values a)" for key iv
    proof (cases "?f key iv")
      case (Inl e)
      with only [OF i] have e: "?f key iv = Inl OverflowError" by simp
      then have s: "key \<notin> set (static_keys a)" by (auto simp: series_static)
      from rate [OF cat [OF i] s] obtain rate where
        r: "map_of (avg_growth_rates a) key = Some rate" ..
      from e obtain p where "p < nat (periods + 1)" "compound ar iv rate p = None"
        by (auto simp: series_Inl_growing [OF s r])
      with s r cat [OF i] have "overflows ar a periods"
        unfolding overflows_iff compound_None by blast
      with False show ?thesis by simp
    next
      case (Inr s)
      then show ?thesis by blast
    qed
    then have "\<exists>frame0. new_table_data ar a periods = Inr frame0"
      unfolding new_table_data_def by (intro map_items_total)
    with False show ?thesis by simp
  qed
qed

lemma tabulate_well_formed:
  assumes wf: "well_formed a" and p: "0 \<le> periods"
  shows "if overflows ar a periods then tabulate ar a periods = Inl OverflowError
         else \<exists>t. tabulate ar a periods = Inr t"
proof (cases "overflows ar a periods")
  case True
  with new_table_data_well_formed [OF wf, of ar periods] show ?thesis
    by (simp add: tabulate_def)
next
  case False
  with new_table_data_well_formed [OF wf, of ar periods] obtain frame0 where
    f0: "new_table_data ar a periods = Inr frame0" by auto
  from wf have keys: "map fst (initial_values a) = category_names"
    by (simp add: well_formed_iff)
  from f0 have k0: "map fst frame0 = category_names"
    unfolding new_table_data_def using keys map_items_keys by fastforce
  then have "frame0 \<noteq> []"
    by (auto simp: category_names_def)
  from new_table_data_width [OF f0 this] p
  have w: "length (column_labels periods) = frame_width frame0"
    by (simp add: length_column_labels)
  have "\<exists>s. map_of frame0 key = Some s" if "key \<in> set category_names" for key
    using that k0 by (metis map_of_eq_None_iff not_Some_eq set_map)
  then obtain product service cogs marketing staff where
    "map_of frame0 PRODUCT_SALES = Some product" "map_of frame0 SERVICE_SALES = Some service"
    "map_of frame0 COGS = Some cogs" "map_of frame0 MARKETING = Some marketing"
    "map_of frame0 STAFF_SALARIES = Some staff"
    unfolding category_cases by metis
  with f0 w have "\<exists>t. tabulate ar a periods = Inr t"
    by (simp add: tabulate_def getitem_def Let_def AList.update_conv' key_neq)
  with False show ?thesis by simp
qed

lemma build_new_df_well_formed_result:
  assumes "well_formed a" and "0 \<le> periods"
  shows "if overflows ar (fst (build_new_df ar a periods psr ssr)) periods
         then snd (build_new_df ar a periods psr ssr) = Inl OverflowError
         else \<exists>t. snd (build_new_df ar a periods psr ssr) = Inr t"
  unfolding build_new_df_snd
  using build_new_df_well_formed [OF assms(1)] assms(2) by (rule tabulate_well_formed)

lemma build_new_df_row:
  assumes "build_new_df ar a periods psr ssr = (a', Inr t)" and "key \<in> set category_names"
  shows "0 \<le> periods \<and> (\<exists>iv s. map_of (initial_values a) key = Some iv \<and>
           series ar (static_keys a) (avg_growth_rates a') periods key iv = Inr s \<and>
           map_of (rows t) key = Some s)"
proof -
  from assms(1) have a': "a' = fst (build_new_df ar a periods psr ssr)"
    and t: "tabulate ar a' periods = Inr t"
    using build_new_df_snd [of ar a periods psr ssr] by simp_all
  from tabulate_Inr [OF t] obtain frame0 product service cogs marketing staff where
    f0: "new_table_data ar a' periods = Inr frame0" and p: "0 \<le> periods"
    and l: "map_of frame0 PRODUCT_SALES = Some product" "map_of frame0 SERVICE_SALES = Some service"
     "map_of frame0 COGS = Some cogs" "map_of frame0 MARKETING = Some marketing"
     "map_of frame0 STAFF_SALARIES = Some staff"
    and r: "rows t = [(PRODUCT_SALES, product), (SERVICE_SALES, service),
       (TOTAL_SALES, map2 (num_add ar) product service),
       (COGS, cogs), (MARKETING, marketing), (STAFF_SALARIES, staff),
       (TOTAL_OPEX, map2 (num_add ar) (map2 (num_add ar) cogs marketing) staff),
       (NET_INCOME, map2 (num_sub ar) (map2 (num_add ar) product service)
          (map2 (num_add ar) (map2 (num_add ar) cogs marketing) staff))]"
    by blast
  from assms(2) l r have "map_of (rows t) key = map_of frame0 key"
    by (auto simp: category_cases key_neq)
  moreover from assms(2) l obtain s where s: "map_of frame0 key = Some s"
    by (auto simp: category_cases)
  moreover from new_table_data_lookup [OF f0 s]
  have "\<exists>iv. map_of (initial_values a) key = Some iv \<and>
           series ar (static_keys a) (avg_growth_rates a') periods key iv = Inr s"
    by (simp add: a' build_new_df_static build_new_df_initial)
  ultimately show ?thesis using p by auto
qed

subsection \<open>Slicing\<close>

lemma iloc_row_short: "nrows df \<le> r \<Longrightarrow> iloc_row df r lo hi = Inl IndexError"
  by (simp add: iloc_row_def)

lemma iloc_row_ok: "r < nrows df \<Longrightarrow> iloc_row df r lo hi = Inr (map (cell df r) [lo..<min hi (ncols df)])"
  by (simp add: iloc_row_def)

lemma identify_key_sections_short:
  assumes "nrows df < 9"
  shows "identify_key_sections df = Inl IndexError"
proof -
  from assms have "iloc_row df 8 1 14 = Inl IndexError"
    by (simp add: iloc_row_short)
  then show ?thesis
    unfolding identify_key_sections_def
    by (auto simp: iloc_row_def split: sum.splits if_splits)
qed

lemma identify_key_sections_ok:
  assumes "9 \<le> nrows df"
  shows "identify_key_sections df =
    Inr [(PRODUCT_SALES, sliced df 2), (SERVICE_SALES, sliced df 3), (COGS, sliced df 6),
         (MARKETING, sliced df 7), (STAFF_SALARIES, sliced df 8)]"
  using assms by (simp add: identify_key_sections_def iloc_row_ok sliced_def)

lemma length_sliced: "length (sliced df r) = min 13 (ncols df - 1)"
  by (simp add: sliced_def)

lemma nth_sliced:
  assumes "i < min 13 (ncols df - 1)"
  shows "sliced df r ! i = cell df r (Suc i)"
proof -
  from assms have "Suc i < min 14 (ncols df)" by arith
  then have "i < length [1..<min 14 (ncols df)]"
    unfolding length_upt by arith
  moreover from \<open>Suc i < min 14 (ncols df)\<close> have "[1..<min 14 (ncols df)] ! i = Suc i"
    using nth_upt [of 1 i "min 14 (ncols df)"] by simp
  ultimately have "i < length [1..<min 14 (ncols df)]" and "[1..<min 14 (ncols df)] ! i = Suc i"
    by blast+
  then show ?thesis
    unfolding sliced_def by (simp only: nth_map)
qed

lemma identify_key_sections_cases:
  "nrows df < 9 \<and> identify_key_sections df = Inl IndexError \<or>
   9 \<le> nrows df \<and> identify_key_sections df =
    Inr [(PRODUCT_SALES, sliced df 2), (SERVICE_SALES, sliced df 3), (COGS, sliced df 6),
         (MARKETING, sliced df 7), (STAFF_SALARIES, sliced df 8)]"
  using identify_key_sections_short [of df] identify_key_sections_ok [of df] by linarith

lemma identify_key_sections_keys:
  "identify_key_sections df = Inr sections \<Longrightarrow> map fst sections = category_names"
  using identify_key_sections_cases [of df] by (auto simp: category_names_def)

lemma sections_lookup:
  assumes "key \<in> set category_names"
  shows "\<exists>r \<in> {2, 3, 6, 7, 8}.
     map_of [(PRODUCT_SALES, sliced df 2), (SERVICE_SALES, sliced df 3), (COGS, sliced df 6),
         (MARKETING, sliced df 7), (STAFF_SALARIES, sliced df 8)] key = Some (sliced df r)"
  using assms by (auto simp: category_cases key_neq)

lemma sections_mem:
  assumes "(key, v) \<in> set [(PRODUCT_SALES, sliced df 2), (SERVICE_SALES, sliced df 3),
      (COGS, sliced df 6), (MARKETING, sliced df 7), (STAFF_SALARIES, sliced df 8)]"
  shows "\<exists>r \<in> {2, 3, 6, 7, 8}. v = sliced df r"
  using assms by auto

subsection \<open>Growth rates\<close>

lemma growth_rate_None:
  "growth_rate ar v i = None \<longleftrightarrow>
     num_div ar (num_sub ar (v ! i) (v ! (i - 1))) (v ! (i - 1)) = None"
  by (simp add: growth_rate_def)

lemma growth_rate_Some:
  "growth_rate ar v i = Some g \<longleftrightarrow>
     (\<exists>q. num_div ar (num_sub ar (v ! i) (v ! (i - 1))) (v ! (i - 1)) = Some q \<and>
          g = num_round ar q)"
  by (auto simp add: growth_rate_def)

lemma growth_series_eq:
  "growth_series ar v =
     sequence (map (\<lambda>i. case growth_rate ar v i of None \<Rightarrow> Inl ZeroDivisionError
                         | Some g \<Rightarrow> Inr g) [1..<length v])"
  by (simp add: growth_series_def growth_at_def [abs_def])

lemma growth_series_Inr:
  "growth_series ar v = Inr g \<longleftrightarrow>
     length g = length v - 1 \<and> (\<forall>i < length v - 1. growth_rate ar v (Suc i) = Some (g ! i))"
proof -
  have "map (growth_rate ar v) [1..<length v] = map Some g \<longleftrightarrow>
     length g = length v - 1 \<and> (\<forall>i < length v - 1. growth_rate ar v (Suc i) = Some (g ! i))"
    by (auto simp: list_eq_iff_nth_eq)
  then show ?thesis
    by (simp only: growth_series_eq sequence_option_Inr)
qed

lemma growth_series_Inl:
  "growth_series ar v = Inl e \<longleftrightarrow>
     e = ZeroDivisionError \<and> (\<exists>i < length v - 1. growth_rate ar v (Suc i) = None)"
proof -
  have "(\<exists>i \<in> set [1..<length v]. growth_rate ar v i = None) \<longleftrightarrow>
        (\<exists>i < length v - 1. growth_rate ar v (Suc i) = None)"
  proof
    assume "\<exists>i \<in> set [1..<length v]. growth_rate ar v i = None"
    then obtain i where "1 \<le> i" "i < length v" "growth_rate ar v i = None" by auto
    then have "i - 1 < length v - 1" "growth_rate ar v (Suc (i - 1)) = None" by auto
    then show "\<exists>i < length v - 1. growth_rate ar v (Suc i) = None" by blast
  next
    assume "\<exists>i < length v - 1. growth_rate ar v (Suc i) = None"
    then obtain i where "i < length v - 1" "growth_rate ar v (Suc i) = None" by blast
    then have "Suc i \<in> set [1..<length v]" by auto
    with \<open>growth_rate ar v (Suc i) = None\<close> show "\<exists>i \<in> set [1..<length v]. growth_rate ar v i = None"
      by blast
  qed
  then show ?thesis
    by (simp only: growth_series_eq sequence_option_Inl)
qed

lemma calculate_growth_rates_keys:
  "calculate_growth_rates ar sections = Inr growth \<Longrightarrow> map fst growth = map fst sections"
  unfolding calculate_growth_rates_def by (rule map_items_keys)

lemma calculate_growth_rates_lookup:
  assumes "calculate_growth_rates ar sections = Inr growth" and "map_of sections key = Some v"
  shows "\<exists>g. map_of growth key = Some g \<and> growth_series ar v = Inr g"
  using map_items_map_of [OF assms [unfolded calculate_growth_rates_def]] by blast

lemma calculate_growth_rates_Inl:
  assumes "calculate_growth_rates ar sections = Inl e"
  shows "e = ZeroDivisionError \<and>
         (\<exists>key v. (key, v) \<in> set sections \<and> (\<exists>i < length v - 1. growth_rate ar v (Suc i) = None))"
proof -
  from map_items_Inl [OF assms [unfolded calculate_growth_rates_def]]
  obtain key v where "(key, v) \<in> set sections" "growth_series ar v = Inl e" by blast
  then show ?thesis by (auto simp: growth_series_Inl)
qed

lemma calculate_growth_rates_raises:
  assumes "(key, v) \<in> set sections" and "i < length v - 1" and "growth_rate ar v (Suc i) = None"
  shows "calculate_growth_rates ar sections = Inl ZeroDivisionError"
proof -
  from assms(2,3) have "growth_series ar v = Inl ZeroDivisionError"
    by (auto simp: growth_series_Inl)
  with assms(1) show ?thesis
    unfolding calculate_growth_rates_def
    by (intro map_items_raises [of _ "\<lambda>key values. growth_series ar values"])
      (auto simp: growth_series_Inl)
qed

lemma calculate_growth_rates_total:
  assumes "\<And>key v i. (key, v) \<in> set sections \<Longrightarrow> i < length v - 1 \<Longrightarrow>
     growth_rate ar v (Suc i) \<noteq> None"
  shows "\<exists>growth. calculate_growth_rates ar sections = Inr growth"
proof (cases "calculate_growth_rates ar sections")
  case (Inl e)
  from calculate_growth_rates_Inl [OF this] assms show ?thesis by blast
next
  case (Inr growth)
  then show ?thesis by blast
qed

subsection \<open>main_flow\<close>

lemma average_Inr:
  "average ar g = Inr m \<longleftrightarrow>
     g \<noteq> [] \<and> (\<exists>q. num_div ar (py_sum ar g) (num_of_int ar (int (length g))) = Some q \<and>
                  m = num_round ar q)"
  by (auto simp: average_def split: option.splits)

lemma main_flow_Inr:
  assumes "main_flow ar df = Inr a"
  shows "\<exists>sections growth.
     identify_key_sections df = Inr sections \<and> calculate_growth_rates ar sections = Inr growth \<and>
     static_keys a = map fst (filter (\<lambda>(key, values). \<exists>v \<in> set values. num_eq0 ar v) growth) \<and>
     map_items (\<lambda>key values. average ar values)
       (filter (\<lambda>(key, values). key \<notin> set (static_keys a)) growth) = Inr (avg_growth_rates a) \<and>
     map_items (\<lambda>key values. first values) sections = Inr (initial_values a)"
  using assms unfolding main_flow_def
  by (auto simp: Let_def split: sum.splits)

lemma main_flow_rate_keys:
  assumes "main_flow ar df = Inr a"
  shows "fst ` set (avg_growth_rates a) \<inter> set (static_keys a) = {}"
proof -
  from main_flow_Inr [OF assms] obtain growth where
    av: "map_items (\<lambda>key values. average ar values)
       (filter (\<lambda>(key, values). key \<notin> set (static_keys a)) growth) = Inr (avg_growth_rates a)"
    by blast
  let ?growing = "filter (\<lambda>(key, values). key \<notin> set (static_keys a)) growth"
  have "map fst (avg_growth_rates a) = map fst ?growing"
    using av by (rule map_items_keys)
  then have "fst ` set (avg_growth_rates a) = fst ` set ?growing"
    by (metis set_map)
  then show ?thesis by auto
qed

lemma main_flow_initial_keys:
  assumes "main_flow ar df = Inr a"
  shows "map fst (initial_values a) = category_names"
proof -
  from main_flow_Inr [OF assms] obtain sections where
    "identify_key_sections df = Inr sections"
    "map_items (\<lambda>key values. first values) sections = Inr (initial_values a)"
    by blast
  then show ?thesis
    using identify_key_sections_keys map_items_keys by fastforce
qed

lemma main_flow_rates_total:
  assumes "main_flow ar df = Inr a" and "key \<in> set category_names"
  shows "key \<in> set (static_keys a) \<or> key \<in> fst ` set (avg_growth_rates a)"
proof -
  from main_flow_Inr [OF assms(1)] obtain sections growth where
    s: "identify_key_sections df = Inr sections"
    and g: "calculate_growth_rates ar sections = Inr growth"
    and av: "map_items (\<lambda>key values. average ar values)
       (filter (\<lambda>(key, values). key \<notin> set (static_keys a)) growth) = Inr (avg_growth_rates a)"
    by blast
  let ?growing = "filter (\<lambda>(key, values). key \<notin> set (static_keys a)) growth"
  have "map fst growth = category_names"
    using calculate_growth_rates_keys [OF g] identify_key_sections_keys [OF s] by simp
  with assms(2) obtain x where "(key, x) \<in> set growth"
    by (metis (no_types, opaque_lifting) fst_conv imageE set_map prod.collapse)
  then have "key \<in> set (static_keys a) \<or> key \<in> fst ` set ?growing"
    by (auto simp: image_iff)
  moreover have "map fst (avg_growth_rates a) = map fst ?growing"
    using av by (rule map_items_keys)
  then have "fst ` set (avg_growth_rates a) = fst ` set ?growing"
    by (metis set_map)
  ultimately show ?thesis by simp
qed

lemma main_flow_well_formed: "main_flow ar df = Inr a \<Longrightarrow> well_formed a"
  unfolding well_formed_iff using main_flow_initial_keys main_flow_rates_total by blast

lemma main_flow_raises:
  assumes "9 \<le> nrows df" and "r \<in> {2, 3, 6, 7, 8}" and "i < length (sliced df r) - 1"
    and "growth_rate ar (sliced df r) (Suc i) = None"
  shows "main_flow ar df = Inl ZeroDivisionError"
proof -
  let ?sections = "[(PRODUCT_SALES, sliced df 2), (SERVICE_SALES, sliced df 3), (COGS, sliced df 6),
         (MARKETING, sliced df 7), (STAFF_SALARIES, sliced df 8)]"
  from assms(2) obtain key where "(key, sliced df r) \<in> set ?sections" by auto
  from calculate_growth_rates_raises [OF this assms(3,4)] show ?thesis
    by (simp add: main_flow_def identify_key_sections_ok [OF assms(1)])
qed

subsection \<open>The sample arithmetics\<close>

lemma python_div_None: "num_div python_arith a b = None \<longleftrightarrow> num_eq0 python_arith b"
  by (simp add: python_arith_def numpy_arith_def)

lemma numpy_div_Some: "num_div numpy_arith a b \<noteq> None"
  by (simp add: numpy_arith_def)

lemma python_pow_0: "num_pow python_arith x 0 = Some (num_of_int python_arith 1)"
  by (cases x) (simp_all add: python_arith_def numpy_arith_def)

lemma python_mul_1: "num_mul python_arith x (num_of_int python_arith 1) = x"
  by (cases x) (simp_all add: python_arith_def numpy_arith_def)

lemma overflow_bound_eq: "overflow_bound = 2 ^ 1024"
  by (simp add: overflow_bound_def)

lemma python_pow_overflow: "num_pow python_arith (Finite 2) 1024 = None"
proof -
  have "xpow (Finite 2) 1024 = PosInf"
    using xpow.simps(2) [of 2 1023] by (simp add: overflow_bound_eq)
  then show ?thesis
    by (simp add: python_arith_def numpy_arith_def)
qed

subsection \<open>The examples, evaluated\<close>

lemma example_main_flow: "main_flow python_arith example_table = Inr example_assumptions"
  by code_simp

lemma example_build:
  "build_new_df python_arith example_assumptions 3 100 0 =
     (example_overridden, Inr example_projection)"
  by code_simp

lemma fine_main_flow: "main_flow python_arith fine_table = Inr fine_assumptions"
  by code_simp

lemma fine_build:
  "build_new_df python_arith fine_assumptions 1 100 0 = (fine_overridden, Inr fine_projection)"
  by code_simp

lemma narrow_main_flow: "main_flow python_arith narrow_table = Inr fine_assumptions"
  by code_simp

lemma zero_main_flow_numpy: "main_flow numpy_arith zero_table = Inr zero_assumptions"
  by code_simp

lemma compound_Some:
  "compound ar iv rate p = Some v \<longleftrightarrow>
     (\<exists>power. num_pow ar (num_add ar (num_of_int ar 1) rate) p = Some power \<and>
        v = num_round ar (num_mul ar iv power))"
  by (auto simp: compound_def)

lemma example_overflows: "overflows python_arith example_overridden 1024"
proof -
  have "PRODUCT_SALES \<in> set category_names" by (simp add: category_names_def)
  moreover have "PRODUCT_SALES \<notin> set (static_keys example_overridden)"
    by (simp add: example_overridden_def example_assumptions_def key_neq)
  moreover have "map_of (avg_growth_rates example_overridden) PRODUCT_SALES = Some (Finite 1)"
    by (simp add: example_overridden_def)
  moreover have "num_pow python_arith (num_add python_arith (num_of_int python_arith 1) (Finite 1)) 1024 = None"
    using python_pow_overflow by (simp add: python_arith_def numpy_arith_def)
  moreover have "(1024::nat) < nat (1024 + 1)" by simp
  ultimately show ?thesis
    unfolding overflows_iff by blast
qed

lemma example_fst:
  "fst (build_new_df python_arith example_assumptions periods 100 0) = example_overridden"
  by (simp add: build_new_df_fst example_overridden_def example_assumptions_def
      python_arith_def numpy_arith_def key_neq)

section \<open>The projected series\<close>

text \<open>
  C1, as the code has it. In every frame that \<open>build_new_df\<close> returns, whatever the
  assumptions, the slider values and the period count, each of the five categories has: when
  it is static, the row of its initial value repeated \<open>periods + 1\<close> times; otherwise a row of
  \<open>periods + 1\<close> cells whose entry at period \<open>p\<close> (\<open>p = 0\<close> is the column \<open>Initial\<close>) is
  \<open>round(initial * (1 + avg_rate) ** p, 2)\<close>, computed from the initial value and not from
  the rounded entry before it, with the rate of the mapping after the two sales rates have
  been overwritten. A frame is returned only for \<open>periods \<ge> 0\<close>. On well-formed assumptions
  and with \<open>periods \<ge> 0\<close> the call returns a frame unless one of the powers raises; when one
  does, the call raises \<open>OverflowError\<close> and returns nothing.
\<close>

theorem projection_series:
  assumes "key \<in> set category_names"
  shows "(build_new_df ar a periods psr ssr = (a', Inr t) \<longrightarrow>
      0 \<le> periods \<and>
      map_of (avg_growth_rates a') =
        (map_of (avg_growth_rates a))
          (PRODUCT_SALES \<mapsto> num_percent ar psr, SERVICE_SALES \<mapsto> num_percent ar ssr) \<and>
      (\<exists>iv. map_of (initial_values a) key = Some iv \<and>
        (if key \<in> set (static_keys a)
         then map_of (rows t) key = Some (replicate (nat periods + 1) iv)
         else \<exists>avg_rate s. map_of (avg_growth_rates a') key = Some avg_rate \<and>
                map_of (rows t) key = Some s \<and> length s = nat periods + 1 \<and>
                (\<forall>p \<le> nat periods. \<exists>power.
                   num_pow ar (num_add ar (num_of_int ar 1) avg_rate) p = Some power \<and>
                   s ! p = num_round ar (num_mul ar iv power))))) \<and>
    (well_formed a \<and> 0 \<le> periods \<longrightarrow>
      (if overflows ar (fst (build_new_df ar a periods psr ssr)) periods
       then snd (build_new_df ar a periods psr ssr) = Inl OverflowError
       else \<exists>t. snd (build_new_df ar a periods psr ssr) = Inr t))"
proof (intro conjI impI)
  assume b: "build_new_df ar a periods psr ssr = (a', Inr t)"
  from build_new_df_row [OF b assms] obtain iv s where
    p: "0 \<le> periods" and iv: "map_of (initial_values a) key = Some iv"
    and s: "series ar (static_keys a) (avg_growth_rates a') periods key iv = Inr s"
    and r: "map_of (rows t) key = Some s"
    by blast
  from p have n: "nat (periods + 1) = nat periods + 1" by simp
  from b have a': "a' = fst (build_new_df ar a periods psr ssr)" by simp
  show "0 \<le> periods" by (rule p)
  show "map_of (avg_growth_rates a') =
        (map_of (avg_growth_rates a))
          (PRODUCT_SALES \<mapsto> num_percent ar psr, SERVICE_SALES \<mapsto> num_percent ar ssr)"
    by (simp add: a' build_new_df_rates)
  have "if key \<in> set (static_keys a)
         then map_of (rows t) key = Some (replicate (nat periods + 1) iv)
         else \<exists>avg_rate s. map_of (avg_growth_rates a') key = Some avg_rate \<and>
                map_of (rows t) key = Some s \<and> length s = nat periods + 1 \<and>
                (\<forall>p \<le> nat periods. \<exists>power.
                   num_pow ar (num_add ar (num_of_int ar 1) avg_rate) p = Some power \<and>
                   s ! p = num_round ar (num_mul ar iv power))"
  proof (cases "key \<in> set (static_keys a)")
    case True
    with s r show ?thesis by (simp add: series_static n)
  next
    case False
    from s p False obtain avg_rate where
      ar: "map_of (avg_growth_rates a') key = Some avg_rate"
      by (cases "map_of (avg_growth_rates a') key") (auto simp: series_missing)
    from s have "length s = nat periods + 1 \<and>
        (\<forall>p < nat periods + 1. compound ar iv avg_rate p = Some (s ! p))"
      by (simp add: series_Inr_growing [OF False ar] n)
    then have "length s = nat periods + 1 \<and>
        (\<forall>p \<le> nat periods. \<exists>power.
           num_pow ar (num_add ar (num_of_int ar 1) avg_rate) p = Some power \<and>
           s ! p = num_round ar (num_mul ar iv power))"
      by (auto simp: compound_Some less_Suc_eq_le)
    with False ar r show ?thesis by auto
  qed
  with iv show "\<exists>iv. map_of (initial_values a) key = Some iv \<and>
        (if key \<in> set (static_keys a)
         then map_of (rows t) key = Some (replicate (nat periods + 1) iv)
         else \<exists>avg_rate s. map_of (avg_growth_rates a') key = Some avg_rate \<and>
                map_of (rows t) key = Some s \<and> length s = nat periods + 1 \<and>
                (\<forall>p \<le> nat periods. \<exists>power.
                   num_pow ar (num_add ar (num_of_int ar 1) avg_rate) p = Some power \<and>
                   s ! p = num_round ar (num_mul ar iv power)))"
    by blast
next
  assume "well_formed a \<and> 0 \<le> periods"
  then show "if overflows ar (fst (build_new_df ar a periods psr ssr)) periods
       then snd (build_new_df ar a periods psr ssr) = Inl OverflowError
       else \<exists>t. snd (build_new_df ar a periods psr ssr) = Inr t"
    using build_new_df_well_formed_result by blast
qed

text \<open>The assumptions extracted from the first table, 1024 periods and the Product Sales
  slider at 100 percent: \<open>(1 + 100 / 100) ** 1024\<close> raises, and the claim's frame does not
  exist.\<close>

theorem projection_series_counterexample:
  "main_flow python_arith example_table = Inr example_assumptions \<and>
   snd (build_new_df python_arith example_assumptions 1024 100 0) = Inl OverflowError"
proof -
  have "well_formed example_assumptions"
    using example_main_flow by (rule main_flow_well_formed)
  from build_new_df_well_formed_result [OF this, of 1024 python_arith 100 0] example_overflows
  have "snd (build_new_df python_arith example_assumptions 1024 100 0) = Inl OverflowError"
    by (simp add: example_fst)
  with example_main_flow show ?thesis by simp
qed

theorem projection_series_witness:
  "map_of (rows example_projection) COGS = Some (replicate (nat 3 + 1) (Finite 7)) \<and>
   (\<exists>s. map_of (rows example_projection) PRODUCT_SALES = Some s \<and> length s = nat 3 + 1 \<and>
      (\<exists>power. num_pow python_arith (num_add python_arith (num_of_int python_arith 1) (Finite 1)) 3
                  = Some power \<and>
         s ! 3 = num_round python_arith (num_mul python_arith (Finite 100) power))) \<and>
   (\<exists>t. snd (build_new_df python_arith example_assumptions 3 100 0) = Inr t)"
proof -
  have k: "PRODUCT_SALES \<in> set category_names" "COGS \<in> set category_names"
    by (simp_all add: category_names_def)
  have s: "PRODUCT_SALES \<notin> set (static_keys example_assumptions)"
    "COGS \<in> set (static_keys example_assumptions)"
    by (simp_all add: example_assumptions_def key_neq)
  have i: "map_of (initial_values example_assumptions) PRODUCT_SALES = Some (Finite 100)"
    "map_of (initial_values example_assumptions) COGS = Some (Finite 7)"
    by (simp_all add: example_assumptions_def key_neq)
  have r: "map_of (avg_growth_rates example_overridden) PRODUCT_SALES = Some (Finite 1)"
    by (simp add: example_overridden_def)
  have wf: "well_formed example_assumptions"
    using example_main_flow by (rule main_flow_well_formed)
  have no: "\<not> overflows python_arith example_overridden 3"
    by code_simp
  note c = projection_series [OF k(2), of python_arith example_assumptions 3 100 0
      example_overridden example_projection]
  note p = projection_series [OF k(1), of python_arith example_assumptions 3 100 0
      example_overridden example_projection]
  from c example_build s(2) i(2)
  have 1: "map_of (rows example_projection) COGS = Some (replicate (nat 3 + 1) (Finite 7))"
    by auto
  from p example_build obtain iv where
    iv: "map_of (initial_values example_assumptions) PRODUCT_SALES = Some iv"
    and g: "if PRODUCT_SALES \<in> set (static_keys example_assumptions)
         then map_of (rows example_projection) PRODUCT_SALES = Some (replicate (nat 3 + 1) iv)
         else \<exists>avg_rate s. map_of (avg_growth_rates example_overridden) PRODUCT_SALES = Some avg_rate \<and>
                map_of (rows example_projection) PRODUCT_SALES = Some s \<and> length s = nat 3 + 1 \<and>
                (\<forall>p \<le> nat 3. \<exists>power.
                   num_pow python_arith (num_add python_arith (num_of_int python_arith 1) avg_rate) p = Some power \<and>
                   s ! p = num_round python_arith (num_mul python_arith iv power))"
    by blast
  from iv i(1) have iv100: "iv = Finite 100" by simp
  from g s(1) obtain avg_rate s where
    ar: "map_of (avg_growth_rates example_overridden) PRODUCT_SALES = Some avg_rate"
    and row: "map_of (rows example_projection) PRODUCT_SALES = Some s" "length s = nat 3 + 1"
    and cells: "\<forall>p \<le> nat 3. \<exists>power.
                   num_pow python_arith (num_add python_arith (num_of_int python_arith 1) avg_rate) p = Some power \<and>
                   s ! p = num_round python_arith (num_mul python_arith iv power)"
    by (simp only: if_False) blast
  from ar r have ar1: "avg_rate = Finite 1" by simp
  from cells have "\<exists>power.
      num_pow python_arith (num_add python_arith (num_of_int python_arith 1) avg_rate) 3 = Some power \<and>
      s ! 3 = num_round python_arith (num_mul python_arith iv power)"
    by simp
  with row have 2: "\<exists>s. map_of (rows example_projection) PRODUCT_SALES = Some s \<and> length s = nat 3 + 1 \<and>
      (\<exists>power. num_pow python_arith (num_add python_arith (num_of_int python_arith 1) (Finite 1)) 3
                  = Some power \<and>
         s ! 3 = num_round python_arith (num_mul python_arith (Finite 100) power))"
    unfolding iv100 ar1 by blast
  from p wf no have 3: "\<exists>t. snd (build_new_df python_arith example_assumptions 3 100 0) = Inr t"
    by (simp add: example_fst)
  from 1 2 3 show ?thesis by blast
qed

section \<open>The derived rows\<close>

text \<open>
  C3. Every frame \<open>build_new_df\<close> returns has the eight rows in the fixed order, one numeric
  cell for each of the \<open>periods + 1\<close> columns in each row, and in every column the cell of
  Total Sales is the sum \<open>+\<close> of the cells of Product Sales and Service Sales, that of Total
  Operating Expenses is the sum of those of Cost of Goods Sold, Marketing and Staff Salaries
  (added in this order), and that of Net Income is the difference \<open>-\<close> of the cells of Total
  Sales and Total Operating Expenses: the derived cells are what the program's addition and
  subtraction return on the cells of the frame, and no rounding is applied to them.
\<close>

theorem derived_rows:
  assumes "build_new_df ar a periods psr ssr = (a', Inr t)"
  shows "\<exists>product service total_sales cogs marketing staff total_opex net_income.
     rows t = [(PRODUCT_SALES, product), (SERVICE_SALES, service), (TOTAL_SALES, total_sales),
       (COGS, cogs), (MARKETING, marketing), (STAFF_SALARIES, staff),
       (TOTAL_OPEX, total_opex), (NET_INCOME, net_income)] \<and>
     length (columns t) = nat periods + 2 \<and>
     (\<forall>r \<in> set (rows t). length (snd r) = nat periods + 1) \<and>
     (\<forall>c < nat periods + 1.
        total_sales ! c = num_add ar (product ! c) (service ! c) \<and>
        total_opex ! c = num_add ar (num_add ar (cogs ! c) (marketing ! c)) (staff ! c) \<and>
        net_income ! c = num_sub ar (total_sales ! c) (total_opex ! c))"
proof -
  from assms have t: "tabulate ar (fst (build_new_df ar a periods psr ssr)) periods = Inr t"
    using build_new_df_snd [of ar a periods psr ssr] by simp
  from tabulate_Inr [OF t] obtain frame0 product service cogs marketing staff where
    f0: "new_table_data ar (fst (build_new_df ar a periods psr ssr)) periods = Inr frame0"
    and p: "0 \<le> periods"
    and l: "map_of frame0 PRODUCT_SALES = Some product" "map_of frame0 SERVICE_SALES = Some service"
     "map_of frame0 COGS = Some cogs" "map_of frame0 MARKETING = Some marketing"
     "map_of frame0 STAFF_SALARIES = Some staff"
    and c: "columns t = ''Category'' # column_labels periods"
    and r: "rows t = [(PRODUCT_SALES, product), (SERVICE_SALES, service),
       (TOTAL_SALES, map2 (num_add ar) product service),
       (COGS, cogs), (MARKETING, marketing), (STAFF_SALARIES, staff),
       (TOTAL_OPEX, map2 (num_add ar) (map2 (num_add ar) cogs marketing) staff),
       (NET_INCOME, map2 (num_sub ar) (map2 (num_add ar) product service)
          (map2 (num_add ar) (map2 (num_add ar) cogs marketing) staff))]"
    by blast
  from p have n: "nat (periods + 1) = nat periods + 1" by simp
  have len: "length product = nat periods + 1" "length service = nat periods + 1"
    "length cogs = nat periods + 1" "length marketing = nat periods + 1"
    "length staff = nat periods + 1"
    using l new_table_data_length [OF f0] n by simp_all
  have "length (columns t) = nat periods + 2"
    by (simp add: c length_column_labels n)
  moreover have "\<forall>r \<in> set (rows t). length (snd r) = nat periods + 1"
    by (simp add: r len)
  moreover have "\<forall>c < nat periods + 1.
        map2 (num_add ar) product service ! c = num_add ar (product ! c) (service ! c) \<and>
        map2 (num_add ar) (map2 (num_add ar) cogs marketing) staff ! c =
          num_add ar (num_add ar (cogs ! c) (marketing ! c)) (staff ! c) \<and>
        map2 (num_sub ar) (map2 (num_add ar) product service)
            (map2 (num_add ar) (map2 (num_add ar) cogs marketing) staff) ! c =
          num_sub ar (map2 (num_add ar) product service ! c)
            (map2 (num_add ar) (map2 (num_add ar) cogs marketing) staff ! c)"
    by (simp add: len)
  ultimately show ?thesis using r by blast
qed

theorem derived_rows_witness:
  "\<exists>product service total_sales cogs marketing staff total_opex net_income.
     rows example_projection = [(PRODUCT_SALES, product), (SERVICE_SALES, service),
       (TOTAL_SALES, total_sales), (COGS, cogs), (MARKETING, marketing), (STAFF_SALARIES, staff),
       (TOTAL_OPEX, total_opex), (NET_INCOME, net_income)] \<and>
     length (columns example_projection) = nat 3 + 2 \<and>
     (\<forall>r \<in> set (rows example_projection). length (snd r) = nat 3 + 1) \<and>
     (\<forall>c < nat 3 + 1.
        total_sales ! c = num_add python_arith (product ! c) (service ! c) \<and>
        total_opex ! c =
          num_add python_arith (num_add python_arith (cogs ! c) (marketing ! c)) (staff ! c) \<and>
        net_income ! c = num_sub python_arith (total_sales ! c) (total_opex ! c))"
  using derived_rows [OF example_build] .

section \<open>The Initial column\<close>

text \<open>
  C10. In every frame \<open>build_new_df\<close> returns, the first numeric cell (the column \<open>Initial\<close>)
  of a static category is its initial value as stored, and that of a category that is not
  static is \<open>round(initial, 2)\<close>, given that \<open>x ** 0\<close> is 1 and \<open>x * 1\<close> is \<open>x\<close>. So the cell
  shows the stored initial value exactly when the category is static or rounding to two
  decimals leaves that value as it is: for an initial value that rounding changes, the two
  branches show different cells.
\<close>

theorem initial_column:
  assumes "build_new_df ar a periods psr ssr = (a', Inr t)" and "key \<in> set category_names"
    and "\<forall>x. num_pow ar x 0 = Some (num_of_int ar 1)"
    and "\<forall>x. num_mul ar x (num_of_int ar 1) = x"
  shows "\<exists>iv s. map_of (initial_values a) key = Some iv \<and> map_of (rows t) key = Some s \<and>
           s \<noteq> [] \<and>
           s ! 0 = (if key \<in> set (static_keys a) then iv else num_round ar iv) \<and>
           (s ! 0 = iv \<longleftrightarrow> key \<in> set (static_keys a) \<or> num_round ar iv = iv)"
proof -
  from build_new_df_row [OF assms(1,2)] obtain iv s where
    p: "0 \<le> periods" and iv: "map_of (initial_values a) key = Some iv"
    and s: "series ar (static_keys a) (avg_growth_rates a') periods key iv = Inr s"
    and r: "map_of (rows t) key = Some s"
    by blast
  from p have n: "replicate (nat (periods + 1)) iv = iv # replicate (nat periods) iv"
    and pos: "0 < nat (periods + 1)"
    by (simp_all add: nat_add_distrib)
  from series_length [OF s] pos have ne: "s \<noteq> []" by auto
  have c0: "compound ar iv rate 0 = Some (num_round ar iv)" for rate
    using assms(3,4) by (simp add: compound_def)
  have "s ! 0 = (if key \<in> set (static_keys a) then iv else num_round ar iv)"
  proof (cases "key \<in> set (static_keys a)")
    case True
    with s show ?thesis by (auto simp: series_static n)
  next
    case False
    from s p False obtain rate where
      ar: "map_of (avg_growth_rates a') key = Some rate"
      by (cases "map_of (avg_growth_rates a') key") (auto simp: series_missing)
    from s pos have "compound ar iv rate 0 = Some (s ! 0)"
      by (simp add: series_Inr_growing [OF False ar])
    with c0 False show ?thesis by simp
  qed
  with iv r ne show ?thesis by auto
qed

theorem initial_column_witness:
  "(\<exists>s. map_of (rows fine_projection) PRODUCT_SALES = Some s \<and> s \<noteq> [] \<and>
        s ! 0 = num_round python_arith (Finite (641 / 512))) \<and>
   (\<exists>s. map_of (rows fine_projection) COGS = Some s \<and> s \<noteq> [] \<and> s ! 0 = Finite (641 / 512))"
proof -
  have k: "PRODUCT_SALES \<in> set category_names" "COGS \<in> set category_names"
    by (simp_all add: category_names_def)
  have s: "PRODUCT_SALES \<notin> set (static_keys fine_assumptions)"
    "COGS \<in> set (static_keys fine_assumptions)"
    by (simp_all add: fine_assumptions_def key_neq)
  have i: "map_of (initial_values fine_assumptions) PRODUCT_SALES = Some (Finite (641 / 512))"
    "map_of (initial_values fine_assumptions) COGS = Some (Finite (641 / 512))"
    by (simp_all add: fine_assumptions_def key_neq)
  have laws: "\<forall>x. num_pow python_arith x 0 = Some (num_of_int python_arith 1)"
    "\<forall>x. num_mul python_arith x (num_of_int python_arith 1) = x"
    by (simp_all add: python_pow_0 python_mul_1)
  from initial_column [OF fine_build k(1) laws] obtain iv s where
    a: "map_of (initial_values fine_assumptions) PRODUCT_SALES = Some iv"
    and b: "map_of (rows fine_projection) PRODUCT_SALES = Some s" "s \<noteq> []"
    and c: "s ! 0 = (if PRODUCT_SALES \<in> set (static_keys fine_assumptions) then iv
                    else num_round python_arith iv)"
    by blast
  from a i(1) have e: "iv = Finite (641 / 512)" by simp
  from c s(1) have "s ! 0 = num_round python_arith iv" by (simp only: if_False)
  with b have growing:
    "\<exists>s. map_of (rows fine_projection) PRODUCT_SALES = Some s \<and> s \<noteq> [] \<and>
        s ! 0 = num_round python_arith (Finite (641 / 512))"
    unfolding e by blast
  from initial_column [OF fine_build k(2) laws] obtain iv' s' where
    a': "map_of (initial_values fine_assumptions) COGS = Some iv'"
    and b': "map_of (rows fine_projection) COGS = Some s'" "s' \<noteq> []"
    and c': "s' ! 0 = (if COGS \<in> set (static_keys fine_assumptions) then iv'
                     else num_round python_arith iv')"
    by blast
  from a' i(2) have e': "iv' = Finite (641 / 512)" by simp
  from c' s(2) have "s' ! 0 = iv'" by (simp only: if_True)
  with b' have "\<exists>s. map_of (rows fine_projection) COGS = Some s \<and> s \<noteq> [] \<and> s ! 0 = Finite (641 / 512)"
    unfolding e' by blast
  with growing show ?thesis by blast
qed

section \<open>Negative period counts\<close>

text \<open>
  C5. For every assumptions record and every pair of slider values, \<open>build_new_df\<close> with
  \<open>periods < 0\<close> raises \<open>ValueError\<close>: the series are empty, the transposed frame has no
  column, and the assignment of the one label \<open>Initial\<close> to \<open>.columns\<close> is refused. With
  \<open>periods \<ge> 0\<close> (and at least one category) it never raises \<open>ValueError\<close>; on assumptions that
  \<open>main_flow\<close> has returned it returns a frame, unless a power raises \<open>OverflowError\<close>.
\<close>

theorem negative_periods:
  "(periods < 0 \<longrightarrow> snd (build_new_df ar a periods psr ssr) = Inl ValueError) \<and>
   (0 \<le> periods \<and> initial_values a \<noteq> [] \<longrightarrow>
      snd (build_new_df ar a periods psr ssr) \<noteq> Inl ValueError) \<and>
   (0 \<le> periods \<and> main_flow ar df = Inr a \<longrightarrow>
      snd (build_new_df ar a periods psr ssr) = Inl OverflowError \<or>
      (\<exists>t. snd (build_new_df ar a periods psr ssr) = Inr t))"
proof (intro conjI impI)
  assume "periods < 0"
  then show "snd (build_new_df ar a periods psr ssr) = Inl ValueError"
    by (simp add: build_new_df_snd tabulate_negative)
next
  assume "0 \<le> periods \<and> initial_values a \<noteq> []"
  then show "snd (build_new_df ar a periods psr ssr) \<noteq> Inl ValueError"
    using tabulate_error [of ar "fst (build_new_df ar a periods psr ssr)" periods ValueError]
    by (auto simp: build_new_df_snd build_new_df_initial)
next
  assume h: "0 \<le> periods \<and> main_flow ar df = Inr a"
  then have "well_formed a" using main_flow_well_formed by blast
  from build_new_df_well_formed_result [OF this, of periods ar psr ssr] h
  show "snd (build_new_df ar a periods psr ssr) = Inl OverflowError \<or>
      (\<exists>t. snd (build_new_df ar a periods psr ssr) = Inr t)"
    by (auto split: if_splits)
qed

theorem negative_periods_witness:
  "snd (build_new_df python_arith example_assumptions (- 1) 100 0) = Inl ValueError \<and>
   snd (build_new_df python_arith example_assumptions 3 100 0) \<noteq> Inl ValueError \<and>
   (\<exists>t. snd (build_new_df python_arith example_assumptions 3 100 0) = Inr t)"
proof -
  have "initial_values example_assumptions \<noteq> []"
    by (simp add: example_assumptions_def)
  then show ?thesis
    using negative_periods [of "- 1" python_arith example_assumptions 100 0]
      negative_periods [of 3 python_arith example_assumptions 100 0 example_table]
      example_main_flow
    by (auto simp: example_build)
qed

section \<open>Repeated invocation\<close>

text \<open>
  C9. Calling \<open>build_new_df\<close> a second time with the same period count and the same two
  slider values, on the assumptions as the first call left them, gives the same result as the
  first call (the same frame, or the same exception) and leaves the assumptions as they were
  after the first call: the overwrite of the two sales rates is idempotent.
\<close>

theorem build_new_df_repeat:
  "build_new_df ar (fst (build_new_df ar a periods psr ssr)) periods psr ssr =
     build_new_df ar a periods psr ssr"
  by (simp add: build_new_df_def Let_def override_idem key_neq)

theorem build_new_df_repeat_witness:
  "build_new_df python_arith example_overridden 3 100 0 =
     (example_overridden, Inr example_projection)"
  using build_new_df_repeat [of python_arith example_assumptions 3 100 0]
  by (simp add: example_build)

section \<open>The shape of the input table\<close>

text \<open>
  C6, as the code has it. Extraction raises \<open>IndexError\<close> exactly when the table has fewer
  than 9 rows: the row positions 2, 3, 6, 7 and 8 are single positions, and position 8 is
  outside such a table. The column slice \<open>1:14\<close> never raises: with at least 9 rows the
  slicing step succeeds for every number of columns and yields \<open>min(13, ncols - 1)\<close> values
  for each category, which is 13 values when the table has at least 14 columns.
\<close>

theorem slicing_shape:
  "(identify_key_sections df = Inl IndexError \<longleftrightarrow> nrows df < 9) \<and>
   (nrows df < 9 \<longrightarrow> main_flow ar df = Inl IndexError) \<and>
   (9 \<le> nrows df \<longrightarrow>
      (\<exists>sections. identify_key_sections df = Inr sections \<and> map fst sections = category_names \<and>
         (\<forall>values \<in> snd ` set sections. length values = min 13 (ncols df - 1))))"
proof (intro conjI impI)
  show "identify_key_sections df = Inl IndexError \<longleftrightarrow> nrows df < 9"
    using identify_key_sections_cases [of df] by auto
next
  assume "nrows df < 9"
  then show "main_flow ar df = Inl IndexError"
    by (simp add: main_flow_def identify_key_sections_short)
next
  assume "9 \<le> nrows df"
  then show "\<exists>sections. identify_key_sections df = Inr sections \<and> map fst sections = category_names \<and>
         (\<forall>values \<in> snd ` set sections. length values = min 13 (ncols df - 1))"
    by (simp add: identify_key_sections_ok category_names_def length_sliced)
qed

text \<open>A table of 9 rows and 3 columns is extracted without any exception.\<close>

theorem slicing_shape_counterexample:
  "ncols narrow_table < 14 \<and> main_flow python_arith narrow_table = Inr fine_assumptions"
  by (simp add: narrow_main_flow) (simp add: narrow_table_def)

theorem slicing_shape_witness:
  "identify_key_sections (example_table\<lparr>nrows := 8\<rparr>) = Inl IndexError \<and>
   main_flow python_arith (example_table\<lparr>nrows := 8\<rparr>) = Inl IndexError \<and>
   (\<exists>sections. identify_key_sections example_table = Inr sections \<and>
      map fst sections = category_names \<and>
      (\<forall>values \<in> snd ` set sections. length values = min 13 (ncols example_table - 1))) \<and>
   (\<exists>sections. identify_key_sections narrow_table = Inr sections \<and>
      map fst sections = category_names \<and>
      (\<forall>values \<in> snd ` set sections. length values = min 13 (ncols narrow_table - 1)))"
proof -
  have "nrows (example_table\<lparr>nrows := 8\<rparr>) < 9" "9 \<le> nrows example_table" "9 \<le> nrows narrow_table"
    by (simp_all add: example_table_def narrow_table_def)
  then show ?thesis
    using slicing_shape [of "example_table\<lparr>nrows := 8\<rparr>" python_arith]
      slicing_shape [of example_table python_arith] slicing_shape [of narrow_table python_arith]
    by blast
qed

section \<open>The growth series\<close>

text \<open>
  C8. For a table of at least 9 rows and 14 columns in which none of the first 12 values of
  the five category rows is zero, and with a division that raises on a zero divisor only,
  slicing and \<open>calculate_growth_rates\<close> both return, and for each of the five categories, with
  \<open>v\<close> its 13 historical values, the growth series has \<open>len(v) - 1 = 12\<close> entries, the entry
  for \<open>i\<close> in 1..12 being \<open>round((v[i] - v[i-1]) / v[i-1], 2)\<close>.
\<close>

theorem growth_series_entries:
  assumes "9 \<le> nrows df" and "14 \<le> ncols df"
    and "\<forall>r \<in> {2, 3, 6, 7, 8}. \<forall>c \<in> {1..12}. \<not> num_eq0 ar (cell df r c)"
    and "\<forall>a b. \<not> num_eq0 ar b \<longrightarrow> num_div ar a b \<noteq> None"
  shows "\<exists>sections growth.
     identify_key_sections df = Inr sections \<and> calculate_growth_rates ar sections = Inr growth \<and>
     (\<forall>key \<in> set category_names. \<exists>v g.
        map_of sections key = Some v \<and> map_of growth key = Some g \<and>
        length v = 13 \<and> length g = length v - 1 \<and>
        (\<forall>i \<in> {1..12}. \<exists>q.
           num_div ar (num_sub ar (v ! i) (v ! (i - 1))) (v ! (i - 1)) = Some q \<and>
           g ! (i - 1) = num_round ar q))"
proof -
  let ?sections = "[(PRODUCT_SALES, sliced df 2), (SERVICE_SALES, sliced df 3), (COGS, sliced df 6),
         (MARKETING, sliced df 7), (STAFF_SALARIES, sliced df 8)]"
  have s: "identify_key_sections df = Inr ?sections"
    using assms(1) by (rule identify_key_sections_ok)
  have len: "length (sliced df r) = 13" for r
    using assms(2) by (simp add: length_sliced)
  have nz: "growth_rate ar (sliced df r) (Suc i) \<noteq> None"
    if "r \<in> {2, 3, 6, 7, 8}" "i < length (sliced df r) - 1" for r i
  proof -
    from that(2) have i: "i < 12" by (simp add: len)
    with assms(2) have "sliced df r ! i = cell df r (Suc i)"
      by (intro nth_sliced) simp
    moreover from i have "Suc i \<in> {1..12}" by simp
    ultimately have "\<not> num_eq0 ar (sliced df r ! i)" using assms(3) that(1) by metis
    with assms(4) show ?thesis by (simp add: growth_rate_None)
  qed
  have "\<exists>growth. calculate_growth_rates ar ?sections = Inr growth"
  proof (rule calculate_growth_rates_total)
    fix key v i
    assume "(key, v) \<in> set ?sections" "i < length v - 1"
    with sections_mem [of key v df] nz show "growth_rate ar v (Suc i) \<noteq> None" by blast
  qed
  then obtain growth where g: "calculate_growth_rates ar ?sections = Inr growth" ..
  have "\<exists>v g. map_of ?sections key = Some v \<and> map_of growth key = Some g \<and>
        length v = 13 \<and> length g = length v - 1 \<and>
        (\<forall>i \<in> {1..12}. \<exists>q.
           num_div ar (num_sub ar (v ! i) (v ! (i - 1))) (v ! (i - 1)) = Some q \<and>
           g ! (i - 1) = num_round ar q)"
    if "key \<in> set category_names" for key
  proof -
    from sections_lookup [OF that, of df] obtain r where
      v: "map_of ?sections key = Some (sliced df r)" by blast
    let ?v = "sliced df r"
    from calculate_growth_rates_lookup [OF g v] obtain gs where
      m: "map_of growth key = Some gs" and e: "growth_series ar ?v = Inr gs" by blast
    from e have l: "length gs = length ?v - 1"
      and each: "\<forall>i < length ?v - 1. growth_rate ar ?v (Suc i) = Some (gs ! i)"
      by (simp_all add: growth_series_Inr)
    have "\<exists>q. num_div ar (num_sub ar (?v ! i) (?v ! (i - 1))) (?v ! (i - 1)) = Some q \<and>
           gs ! (i - 1) = num_round ar q" if "i \<in> {1..12}" for i
    proof -
      from that have "i - 1 < 12" "Suc (i - 1) = i" by auto
      then have "i - 1 < length ?v - 1" "Suc (i - 1) = i" by (simp_all add: len)
      with each have "growth_rate ar ?v i = Some (gs ! (i - 1))" by metis
      then show ?thesis by (simp add: growth_rate_Some)
    qed
    with v m l show ?thesis by (simp add: len)
  qed
  with s g show ?thesis by blast
qed

theorem growth_series_entries_witness:
  "\<exists>sections growth.
     identify_key_sections example_table = Inr sections \<and>
     calculate_growth_rates python_arith sections = Inr growth \<and>
     (\<forall>key \<in> set category_names. \<exists>v g.
        map_of sections key = Some v \<and> map_of growth key = Some g \<and>
        length v = 13 \<and> length g = length v - 1 \<and>
        (\<forall>i \<in> {1..12}. \<exists>q.
           num_div python_arith (num_sub python_arith (v ! i) (v ! (i - 1))) (v ! (i - 1)) = Some q \<and>
           g ! (i - 1) = num_round python_arith q))"
proof -
  have "9 \<le> nrows example_table" "14 \<le> ncols example_table"
    by (simp_all add: example_table_def)
  moreover have "\<forall>r \<in> {2, 3, 6, 7, 8}. \<forall>c \<in> {1..12}. \<not> num_eq0 python_arith (cell example_table r c)"
    by (simp add: example_table_def python_arith_def numpy_arith_def)
  moreover have "\<forall>a b. \<not> num_eq0 python_arith b \<longrightarrow> num_div python_arith a b \<noteq> None"
    by (simp add: python_div_None)
  ultimately show ?thesis by (rule growth_series_entries)
qed

section \<open>Zero divisors\<close>

text \<open>
  C7, as the code has it. For a table of at least 9 rows and 14 columns the growth-rate
  computation raises nothing but \<open>ZeroDivisionError\<close>, and whether a zero among the first 12
  values of a category row makes it raise is decided by the number type of the cells. With
  numbers whose division raises exactly on a zero divisor (Python's \<open>int\<close> and \<open>float\<close>),
  extraction fails with \<open>ZeroDivisionError\<close> if one of those values is zero, and the
  growth-rate computation returns if none is. With numbers whose division never raises
  (\<open>numpy.float64\<close>, where a zero divisor gives \<open>inf\<close> or \<open>nan\<close>) it returns for every table.
\<close>

theorem zero_divisors:
  assumes "9 \<le> nrows df" and "14 \<le> ncols df"
  shows "\<exists>sections. identify_key_sections df = Inr sections \<and>
     (\<forall>e. calculate_growth_rates ar sections = Inl e \<longrightarrow> e = ZeroDivisionError) \<and>
     ((\<forall>a b. num_div ar a b = None \<longleftrightarrow> num_eq0 ar b) \<longrightarrow>
        (if \<exists>r \<in> {2, 3, 6, 7, 8}. \<exists>c \<in> {1..12}. num_eq0 ar (cell df r c)
         then calculate_growth_rates ar sections = Inl ZeroDivisionError \<and>
              main_flow ar df = Inl ZeroDivisionError
         else \<exists>growth. calculate_growth_rates ar sections = Inr growth)) \<and>
     ((\<forall>a b. num_div ar a b \<noteq> None) \<longrightarrow>
        (\<exists>growth. calculate_growth_rates ar sections = Inr growth))"
proof -
  let ?sections = "[(PRODUCT_SALES, sliced df 2), (SERVICE_SALES, sliced df 3), (COGS, sliced df 6),
         (MARKETING, sliced df 7), (STAFF_SALARIES, sliced df 8)]"
  have s: "identify_key_sections df = Inr ?sections"
    using assms(1) by (rule identify_key_sections_ok)
  have len: "length (sliced df r) = 13" for r
    using assms(2) by (simp add: length_sliced)
  have nth: "sliced df r ! i = cell df r (Suc i)" if "i < 12" for r i
    using assms(2) that by (intro nth_sliced) simp
  have 1: "\<forall>e. calculate_growth_rates ar ?sections = Inl e \<longrightarrow> e = ZeroDivisionError"
    using calculate_growth_rates_Inl by blast
  have 2: "if \<exists>r \<in> {2, 3, 6, 7, 8}. \<exists>c \<in> {1..12}. num_eq0 ar (cell df r c)
         then calculate_growth_rates ar ?sections = Inl ZeroDivisionError \<and>
              main_flow ar df = Inl ZeroDivisionError
         else \<exists>growth. calculate_growth_rates ar ?sections = Inr growth"
    if py: "\<forall>a b. num_div ar a b = None \<longleftrightarrow> num_eq0 ar b"
  proof (cases "\<exists>r \<in> {2, 3, 6, 7, 8}. \<exists>c \<in> {1..12}. num_eq0 ar (cell df r c)")
    case True
    then obtain r c where r: "r \<in> {2, 3, 6, 7, 8}" and c: "c \<in> {1..12}"
      and z: "num_eq0 ar (cell df r c)" by blast
    from c have "c - 1 < 12" "Suc (c - 1) = c" by auto
    then have i: "c - 1 < length (sliced df r) - 1" "c - 1 < 12" "Suc (c - 1) = c"
      by (simp_all add: len)
    from nth [OF i(2), of r] i(3) z have "num_eq0 ar (sliced df r ! (c - 1))" by simp
    with py have n: "growth_rate ar (sliced df r) (Suc (c - 1)) = None"
      by (simp add: growth_rate_None)
    from r obtain key where "(key, sliced df r) \<in> set ?sections" by auto
    from calculate_growth_rates_raises [OF this i(1) n]
      main_flow_raises [OF assms(1) r i(1) n] True
    show ?thesis by simp
  next
    case False
    have "\<exists>growth. calculate_growth_rates ar ?sections = Inr growth"
    proof (rule calculate_growth_rates_total)
      fix key v i
      assume m: "(key, v) \<in> set ?sections" and "i < length v - 1"
      from sections_mem [OF m] obtain r where r: "r \<in> {2, 3, 6, 7, 8}" and v: "v = sliced df r"
        by blast
      from \<open>i < length v - 1\<close> have i: "i < 12" by (simp add: v len)
      then have "Suc i \<in> {1..12}" by simp
      with False r have "\<not> num_eq0 ar (cell df r (Suc i))" by blast
      with nth [OF i, of r] py show "growth_rate ar v (Suc i) \<noteq> None"
        by (simp add: growth_rate_None v)
    qed
    with False show ?thesis by simp
  qed
  have 3: "\<exists>growth. calculate_growth_rates ar ?sections = Inr growth"
    if "\<forall>a b. num_div ar a b \<noteq> None"
    using that by (intro calculate_growth_rates_total) (simp add: growth_rate_None)
  from s 1 2 3 show ?thesis by blast
qed

text \<open>The table with a zero in the first month of Cost of Goods Sold, with cells that divide
  as \<open>numpy.float64\<close> does: the first growth rate of the row is \<open>inf\<close>, and extraction returns.\<close>

theorem zero_divisors_counterexample:
  "num_eq0 numpy_arith (cell zero_table 6 1) \<and>
   main_flow numpy_arith zero_table = Inr zero_assumptions"
  by (simp add: zero_main_flow_numpy) (simp add: zero_table_def numpy_arith_def)

theorem zero_divisors_witness:
  "main_flow python_arith zero_table = Inl ZeroDivisionError \<and>
   (\<exists>sections growth. identify_key_sections zero_table = Inr sections \<and>
      calculate_growth_rates numpy_arith sections = Inr growth) \<and>
   (\<exists>sections growth. identify_key_sections example_table = Inr sections \<and>
      calculate_growth_rates python_arith sections = Inr growth)"
proof -
  have shape: "9 \<le> nrows zero_table" "14 \<le> ncols zero_table"
    "9 \<le> nrows example_table" "14 \<le> ncols example_table"
    by (simp_all add: zero_table_def example_table_def)
  have py: "\<forall>a b. num_div python_arith a b = None \<longleftrightarrow> num_eq0 python_arith b"
    by (simp add: python_div_None)
  have np: "\<forall>a b. num_div numpy_arith a b \<noteq> None"
    by (simp add: numpy_div_Some)
  have z: "\<exists>r \<in> {2, 3, 6, 7, 8}. \<exists>c \<in> {1..12}. num_eq0 python_arith (cell zero_table r c)"
    by (simp add: zero_table_def python_arith_def numpy_arith_def)
  have nz: "\<not> (\<exists>r \<in> {2, 3, 6, 7, 8}. \<exists>c \<in> {1..12}. num_eq0 python_arith (cell example_table r c))"
    by (simp add: example_table_def python_arith_def numpy_arith_def)
  from zero_divisors [OF shape(1,2), of python_arith] py z
  have "main_flow python_arith zero_table = Inl ZeroDivisionError" by auto
  moreover from zero_divisors [OF shape(1,2), of numpy_arith] np
  have "\<exists>sections growth. identify_key_sections zero_table = Inr sections \<and>
      calculate_growth_rates numpy_arith sections = Inr growth" by blast
  moreover from zero_divisors [OF shape(3,4), of python_arith] py nz
  have "\<exists>sections growth. identify_key_sections example_table = Inr sections \<and>
      calculate_growth_rates python_arith sections = Inr growth" by auto
  ultimately show ?thesis by blast
qed

section \<open>Static categories and average rates\<close>

text \<open>
  C2. Whenever \<open>main_flow\<close> returns, each of the five categories is in \<open>static_keys\<close> if and
  only if \<open>0.0\<close> occurs in its series of rounded growth rates (some rate compares equal to
  \<open>0.0\<close>); \<open>static_keys\<close> holds category names only; the keys of \<open>avg_growth_rates\<close> are exactly
  the category names that are not static; and the average of each of them is
  \<open>round(sum(rates) / len(rates), 2)\<close> over its rounded rates.
\<close>

theorem static_classification:
  assumes "main_flow ar df = Inr a"
  shows "\<exists>sections growth.
     identify_key_sections df = Inr sections \<and> calculate_growth_rates ar sections = Inr growth \<and>
     map fst growth = category_names \<and>
     (\<forall>key \<in> set category_names. \<exists>g.
        map_of growth key = Some g \<and>
        (key \<in> set (static_keys a) \<longleftrightarrow> (\<exists>x \<in> set g. num_eq0 ar x)) \<and>
        (key \<notin> set (static_keys a) \<longrightarrow>
           (\<exists>q. num_div ar (py_sum ar g) (num_of_int ar (int (length g))) = Some q \<and>
                map_of (avg_growth_rates a) key = Some (num_round ar q)))) \<and>
     set (static_keys a) \<subseteq> set category_names \<and>
     fst ` set (avg_growth_rates a) = set category_names - set (static_keys a)"
proof -
  from main_flow_Inr [OF assms] obtain sections growth where
    s: "identify_key_sections df = Inr sections"
    and g: "calculate_growth_rates ar sections = Inr growth"
    and st: "static_keys a = map fst (filter (\<lambda>(key, values). \<exists>v \<in> set values. num_eq0 ar v) growth)"
    and av: "map_items (\<lambda>key values. average ar values)
       (filter (\<lambda>(key, values). key \<notin> set (static_keys a)) growth) = Inr (avg_growth_rates a)"
    by blast
  let ?growing = "filter (\<lambda>(key, values). key \<notin> set (static_keys a)) growth"
  have keys: "map fst growth = category_names"
    using calculate_growth_rates_keys [OF g] identify_key_sections_keys [OF s] by simp
  then have d: "distinct (map fst growth)"
    by (simp add: distinct_category_names)
  have mem: "(key, x) \<in> set growth \<longleftrightarrow> map_of growth key = Some x" for key x
    using d by simp
  have static: "key \<in> set (static_keys a) \<longleftrightarrow>
      (\<exists>x. map_of growth key = Some x \<and> (\<exists>v \<in> set x. num_eq0 ar v))" for key
    unfolding st by (auto simp: mem [symmetric] image_iff)
  have sub: "set (static_keys a) \<subseteq> set category_names"
    unfolding st keys [symmetric] by auto
  have "map fst (avg_growth_rates a) = map fst ?growing"
    using av by (rule map_items_keys)
  then have "fst ` set (avg_growth_rates a) = fst ` set ?growing"
    by (metis set_map)
  also have "\<dots> = set category_names - set (static_keys a)"
    unfolding keys [symmetric] by (auto simp: image_iff)
  finally have dom: "fst ` set (avg_growth_rates a) = set category_names - set (static_keys a)" .
  have each: "\<exists>x. map_of growth key = Some x \<and>
        (key \<in> set (static_keys a) \<longleftrightarrow> (\<exists>v \<in> set x. num_eq0 ar v)) \<and>
        (key \<notin> set (static_keys a) \<longrightarrow>
           (\<exists>q. num_div ar (py_sum ar x) (num_of_int ar (int (length x))) = Some q \<and>
                map_of (avg_growth_rates a) key = Some (num_round ar q)))"
    if "key \<in> set category_names" for key
  proof -
    from that keys obtain x where x: "map_of growth key = Some x"
      by (metis map_of_eq_None_iff not_Some_eq set_map)
    have "\<exists>q. num_div ar (py_sum ar x) (num_of_int ar (int (length x))) = Some q \<and>
                map_of (avg_growth_rates a) key = Some (num_round ar q)"
      if n: "key \<notin> set (static_keys a)"
    proof -
      from x n have "(key, x) \<in> set ?growing" by (simp add: mem)
      moreover have "distinct (map fst ?growing)"
        using d by (rule distinct_map_filter)
      ultimately have "map_of ?growing key = Some x" by simp
      from map_items_map_of [OF av this] obtain m where
        "average ar x = Inr m" "map_of (avg_growth_rates a) key = Some m" by blast
      then show ?thesis by (auto simp: average_Inr)
    qed
    with x static [of key] show ?thesis by auto
  qed
  from s g keys each sub dom show ?thesis by blast
qed

theorem static_classification_witness:
  "\<exists>sections growth.
     identify_key_sections example_table = Inr sections \<and>
     calculate_growth_rates python_arith sections = Inr growth \<and>
     map fst growth = category_names \<and>
     (\<forall>key \<in> set category_names. \<exists>g.
        map_of growth key = Some g \<and>
        (key \<in> set (static_keys example_assumptions) \<longleftrightarrow> (\<exists>x \<in> set g. num_eq0 python_arith x)) \<and>
        (key \<notin> set (static_keys example_assumptions) \<longrightarrow>
           (\<exists>q. num_div python_arith (py_sum python_arith g)
                   (num_of_int python_arith (int (length g))) = Some q \<and>
                map_of (avg_growth_rates example_assumptions) key =
                  Some (num_round python_arith q)))) \<and>
     set (static_keys example_assumptions) \<subseteq> set category_names \<and>
     fst ` set (avg_growth_rates example_assumptions) =
       set category_names - set (static_keys example_assumptions)"
  using static_classification [OF example_main_flow] .

section \<open>Static categories in the rate mapping\<close>

text \<open>
  C4, as the code has it. The mapping \<open>avg_growth_rates\<close> that \<open>main_flow\<close> returns contains
  no static category. Every call of \<open>build_new_df\<close> leaves \<open>static_keys\<close> as it is and adds the
  keys Product Sales and Service Sales to the mapping, whether or not they are static, and no
  other key: a call preserves the invariant exactly when neither Product Sales nor Service
  Sales is static.
\<close>

theorem static_rates:
  "(main_flow ar df = Inr a \<longrightarrow> no_static_rate a) \<and>
   static_keys (fst (build_new_df ar a periods psr ssr)) = static_keys a \<and>
   fst ` set (avg_growth_rates (fst (build_new_df ar a periods psr ssr))) =
     fst ` set (avg_growth_rates a) \<union> {PRODUCT_SALES, SERVICE_SALES} \<and>
   (no_static_rate a \<longrightarrow>
      (no_static_rate (fst (build_new_df ar a periods psr ssr)) \<longleftrightarrow>
         PRODUCT_SALES \<notin> set (static_keys a) \<and> SERVICE_SALES \<notin> set (static_keys a)))"
proof (intro conjI impI)
  assume "main_flow ar df = Inr a"
  from main_flow_rate_keys [OF this] show "no_static_rate a"
    by (auto simp: no_static_rate_def)
next
  show "static_keys (fst (build_new_df ar a periods psr ssr)) = static_keys a"
    by (rule build_new_df_static)
next
  show "fst ` set (avg_growth_rates (fst (build_new_df ar a periods psr ssr))) =
     fst ` set (avg_growth_rates a) \<union> {PRODUCT_SALES, SERVICE_SALES}"
    by (rule build_new_df_rate_keys)
next
  assume "no_static_rate a"
  then show "no_static_rate (fst (build_new_df ar a periods psr ssr)) \<longleftrightarrow>
         PRODUCT_SALES \<notin> set (static_keys a) \<and> SERVICE_SALES \<notin> set (static_keys a)"
    unfolding no_static_rate_def build_new_df_rate_keys build_new_df_static by auto
qed

text \<open>In the second table Service Sales is static, and after one call of \<open>build_new_df\<close> the
  mapping holds a rate for it.\<close>

theorem static_rates_counterexample:
  "main_flow python_arith fine_table = Inr fine_assumptions \<and>
   fst (build_new_df python_arith fine_assumptions 1 100 0) = fine_overridden \<and>
   no_static_rate fine_assumptions \<and>
   SERVICE_SALES \<in> set (static_keys fine_overridden) \<and>
   SERVICE_SALES \<in> fst ` set (avg_growth_rates fine_overridden) \<and>
   \<not> no_static_rate fine_overridden"
proof -
  have "SERVICE_SALES \<in> set (static_keys fine_overridden)"
    "SERVICE_SALES \<in> fst ` set (avg_growth_rates fine_overridden)"
    by (simp_all add: fine_overridden_def fine_assumptions_def)
  moreover from this have "\<not> no_static_rate fine_overridden"
    unfolding no_static_rate_def by blast
  moreover have "no_static_rate fine_assumptions"
    by (simp add: no_static_rate_def fine_assumptions_def key_neq)
  ultimately show ?thesis
    by (simp add: fine_main_flow fine_build)
qed

theorem static_rates_witness:
  "no_static_rate example_assumptions \<and> no_static_rate example_overridden \<and>
   static_keys example_overridden = static_keys example_assumptions"
proof -
  have e: "fst (build_new_df python_arith example_assumptions 3 100 0) = example_overridden"
    by (simp add: example_build)
  have n: "PRODUCT_SALES \<notin> set (static_keys example_assumptions)"
     "SERVICE_SALES \<notin> set (static_keys example_assumptions)"
    by (simp_all add: example_assumptions_def key_neq)
  from static_rates [of python_arith example_table example_assumptions 3 100 0] example_main_flow n
  show ?thesis unfolding e by blast
qed

end
